theory Spec2Isabelle
  imports Main "HOL-Library.Word"
begin

section \<open>The multi-timer program (main.go) as a shallow embedding\<close>

text \<open>
  Conventions of the embedding.
  \<^item> Go's \<open>int\<close>, \<open>int64\<close> and \<open>time.Duration\<close> (an \<open>int64\<close> count of nanoseconds) are
    64-bit words (the 64-bit targets of Go): \<open>+\<close> and \<open>-\<close> wrap, \<open>sint\<close> reads the
    two's-complement value, and every comparison of the source is a comparison of \<open>sint\<close>.
  \<^item> A Go \<open>string\<close> is a sequence of bytes: \<open>string\<close>.
  \<^item> A run-time panic (index out of range) is the value \<open>Inl\<close> of a sum type.
  \<^item> The timers of \<open>activeTimers\<close> are distinct heap objects (each comes from its own
    \<open>&Timer{...}\<close>), so the slice of pointers is a list of values and \<open>update\<close>, which
    mutates through the pointer, returns the new value.
  \<^item> \<open>notify\<close> is an effect; the functions return the list of notifications they send.
\<close>

subsection \<open>Data (main.go, lines 16-42)\<close>

type_synonym go_int = "64 word"
type_synonym Duration = "64 word"

datatype error =
    IndexOutOfRange
  | InvalidFormat
  | InvalidNumbers
  | ErrSyntax
  | ErrRange
  | SliceOutOfRange
  | PathError
  | SyntaxError
  | UnmarshalTypeError

definition Second :: Duration where
  "Second = 1000000000"

definition Minute :: Duration where
  "Minute = 60 * Second"

record TimerPhase =
  WorkDuration :: Duration
  BreakDuration :: Duration

record TimerState =
  isWork :: bool
  currentTime :: Duration
  cycles :: go_int
  currentPhase :: go_int
  name :: string
  notifText :: string

record Timer =
  state :: TimerState
  phases :: "TimerPhase list"
  maxCycles :: go_int
  isPaused :: bool

record TimerConfig =
  Name :: string
  NotifText :: string
  Phases :: "TimerPhase list"
  MaxCycles :: go_int

text \<open>A notification: title and message, as passed to \<open>beeep.Notify\<close>.\<close>

type_synonym notification = "string \<times> string"

definition notify :: "string \<Rightarrow> string \<Rightarrow> notification list" where
  "notify title message = [(title, message)]"

text \<open>\<open>xs[i]\<close> of Go, for a signed index: out of range is a panic.\<close>

definition index :: "'a list \<Rightarrow> go_int \<Rightarrow> error + 'a" where
  "index xs i =
     (if 0 \<le> sint i \<and> sint i < int (length xs) then Inr (xs ! nat (sint i))
      else Inl IndexOutOfRange)"

subsection \<open>The timer's transition function (lines 123-152)\<close>

definition update :: "Timer \<Rightarrow> error + (Timer \<times> bool \<times> notification list)" where
  "update t =
     (if isPaused t then Inr (t, False, [])
      else if sint (currentTime (state t)) \<le> 0 then
        (case index (phases t) (currentPhase (state t)) of
           Inl e \<Rightarrow> Inl e
         | Inr cur \<Rightarrow>
             if isWork (state t) then
               Inr (t\<lparr>state := (state t)\<lparr>isWork := False, currentTime := BreakDuration cur\<rparr>\<rparr>,
                    False,
                    notify (name (state t)) (''Break: '' @ notifText (state t)))
             else
               let st1 = (state t)\<lparr>cycles := cycles (state t) + 1\<rparr>;
                   adv = (maxCycles t \<noteq> - 1 \<and> sint (cycles st1) > sint (maxCycles t));
                   st2 = (if adv then st1\<lparr>currentPhase := currentPhase st1 + 1\<rparr> else st1)
               in
                 if adv \<and> sint (currentPhase st2) \<ge> int (length (phases t)) then
                   Inr (t\<lparr>state := st2\<rparr>, True,
                        notify (name st2) (''All phases completed: '' @ notifText st2))
                 else
                   let st3 = (if adv then st2\<lparr>cycles := 1\<rparr> else st2) in
                   (case index (phases t) (currentPhase st3) of
                      Inl e \<Rightarrow> Inl e
                    | Inr nxt \<Rightarrow>
                        Inr (t\<lparr>state := st3\<lparr>isWork := True, currentTime := WorkDuration nxt\<rparr>\<rparr>,
                             False,
                             notify (name st3) (notifText st3))))
      else
        Inr (t\<lparr>state := (state t)\<lparr>currentTime := currentTime (state t) - Second\<rparr>\<rparr>,
             False, []))"

text \<open>
  \<open>n\<close> successive calls of \<open>update\<close> on one timer: the final timer, the result of each
  call in order, and all the notifications sent.
\<close>

fun update_times :: "nat \<Rightarrow> Timer \<Rightarrow> error + (Timer \<times> bool list \<times> notification list)" where
  "update_times 0 t = Inr (t, [], [])"
| "update_times (Suc n) t =
     (case update t of
        Inl e \<Rightarrow> Inl e
      | Inr (t', c, ns) \<Rightarrow>
          (case update_times n t' of
             Inl e \<Rightarrow> Inl e
           | Inr (t'', cs, ns') \<Rightarrow> Inr (t'', c # cs, ns @ ns')))"

subsection \<open>The manager and its scheduling tick (lines 78-91, 154-182)\<close>

text \<open>
  A buffered channel: its capacity, fixed by \<open>make\<close>, and the values waiting in it.
  \<open>try_send\<close> is the \<open>select\<close> with a \<open>default\<close> branch of lines 175-178: the value is
  queued when there is room and dropped otherwise; the sender never waits. \<open>recv\<close> takes
  the oldest value; on an empty channel the receiver waits (\<open>None\<close>).
\<close>

record 'a chan =
  chan_cap :: nat
  chan_buf :: "'a list"

definition make_chan :: "nat \<Rightarrow> 'a chan" where
  "make_chan n = \<lparr>chan_cap = n, chan_buf = []\<rparr>"

definition try_send :: "'a chan \<Rightarrow> 'a \<Rightarrow> 'a chan" where
  "try_send c v =
     (if length (chan_buf c) < chan_cap c then c\<lparr>chan_buf := chan_buf c @ [v]\<rparr> else c)"

definition recv :: "'a chan \<Rightarrow> ('a \<times> 'a chan) option" where
  "recv c = (case chan_buf c of [] \<Rightarrow> None | v # vs \<Rightarrow> Some (v, c\<lparr>chan_buf := vs\<rparr>))"

text \<open>
  The mutex \<open>mu\<close> makes each operation below atomic with respect to the others; the
  operations are therefore functions on the manager, and a run is a sequence of them.
\<close>

record TimerManager =
  activeTimers :: "Timer list"
  configs :: "TimerConfig list"
  displayChan :: "bool chan"

definition NewTimerManager :: TimerManager where
  "NewTimerManager = \<lparr>activeTimers = [], configs = [], displayChan = make_chan 1\<rparr>"

text \<open>
  The loop of lines 161-169, \<open>for i := len(tm.activeTimers) - 1; i >= 0; i--\<close>. The first
  argument is \<open>i + 1\<close>. A completed timer is cut out of the slice, any other is left in
  its place with its new state.
\<close>

fun tick_loop ::
  "nat \<Rightarrow> Timer list \<Rightarrow> bool \<Rightarrow> notification list \<Rightarrow>
   error + (Timer list \<times> bool \<times> notification list)" where
  "tick_loop 0 ts needsDisplay ns = Inr (ts, needsDisplay, ns)"
| "tick_loop (Suc i) ts needsDisplay ns =
     (if i < length ts then
        (case update (ts ! i) of
           Inl e \<Rightarrow> Inl e
         | Inr (t', completed, ns') \<Rightarrow>
             tick_loop i
               (if completed then take i ts @ drop (Suc i) ts else ts[i := t'])
               True (ns @ ns'))
      else Inl IndexOutOfRange)"

text \<open>One firing of the ticker (the body of \<open>for range ticker.C\<close>, lines 158-179).\<close>

definition tick :: "TimerManager \<Rightarrow> error + (TimerManager \<times> notification list)" where
  "tick tm =
     (case tick_loop (length (activeTimers tm)) (activeTimers tm) False [] of
        Inl e \<Rightarrow> Inl e
      | Inr (ts, needsDisplay, ns) \<Rightarrow>
          Inr (tm\<lparr>activeTimers := ts,
                  displayChan :=
                    (if needsDisplay then try_send (displayChan tm) True else displayChan tm)\<rparr>,
               ns))"

text \<open>\<open>n\<close> firings of the ticker with nothing in between.\<close>

fun ticks :: "nat \<Rightarrow> TimerManager \<Rightarrow> error + TimerManager" where
  "ticks 0 tm = Inr tm"
| "ticks (Suc n) tm = (case tick tm of Inl e \<Rightarrow> Inl e | Inr (tm', ns) \<Rightarrow> ticks n tm')"

text \<open>The display goroutine of lines 376-380 takes one request from the channel.\<close>

definition render :: "TimerManager \<Rightarrow> TimerManager option" where
  "render tm =
     (case recv (displayChan tm) of
        None \<Rightarrow> None
      | Some (v, c) \<Rightarrow> Some (tm\<lparr>displayChan := c\<rparr>))"

subsection \<open>Commands on a timer number (lines 410-430)\<close>

text \<open>
  \<open>num\<close> is the number read by \<open>Sscanf\<close> (0 when nothing was read). It is only compared
  and decremented when positive, so it is an \<open>int\<close> here.
\<close>

definition cmd_pause :: "int \<Rightarrow> TimerManager \<Rightarrow> TimerManager" where
  "cmd_pause num tm =
     (if num > 0 \<and> num \<le> int (length (activeTimers tm)) then
        let i = nat (num - 1); t = activeTimers tm ! i in
        tm\<lparr>activeTimers := (activeTimers tm)[i := t\<lparr>isPaused := \<not> isPaused t\<rparr>]\<rparr>
      else tm)"

definition cmd_reset :: "int \<Rightarrow> TimerManager \<Rightarrow> error + TimerManager" where
  "cmd_reset num tm =
     (if num > 0 \<and> num \<le> int (length (activeTimers tm)) then
        let i = nat (num - 1); t = activeTimers tm ! i in
        (case index (phases t) 0 of
           Inl e \<Rightarrow> Inl e
         | Inr p \<Rightarrow>
             Inr (tm\<lparr>activeTimers :=
                        (activeTimers tm)[i := t\<lparr>state := (state t)\<lparr>currentTime := WorkDuration p\<rparr>\<rparr>]\<rparr>))
      else Inr tm)"

subsection \<open>The library functions on strings that the program calls\<close>

text \<open>
  \<open>strings.TrimSpace\<close> removes the leading and trailing white space of Unicode. On the
  bytes of the string these are the UTF-8 encodings of the runes of \<open>unicode.IsSpace\<close>:
  one byte for U+0009 to U+000D and U+0020, two bytes for U+0085 and U+00A0, three bytes
  for U+1680, U+2000 to U+200A, U+2028, U+2029, U+202F, U+205F and U+3000.
\<close>

definition is_space1 :: "char \<Rightarrow> bool" where
  "is_space1 a = (let x = (of_char a :: nat) in (9 \<le> x \<and> x \<le> 13) \<or> x = 32)"

definition is_space2 :: "char \<Rightarrow> char \<Rightarrow> bool" where
  "is_space2 a b =
     (let x = (of_char a :: nat); y = (of_char b :: nat) in x = 194 \<and> (y = 133 \<or> y = 160))"

definition is_space3 :: "char \<Rightarrow> char \<Rightarrow> char \<Rightarrow> bool" where
  "is_space3 a b c =
     (let x = (of_char a :: nat); y = (of_char b :: nat); z = (of_char c :: nat) in
        (x = 225 \<and> y = 154 \<and> z = 128) \<or>
        (x = 226 \<and> y = 128 \<and> ((128 \<le> z \<and> z \<le> 138) \<or> z = 168 \<or> z = 169 \<or> z = 175)) \<or>
        (x = 226 \<and> y = 129 \<and> z = 159) \<or>
        (x = 227 \<and> y = 128 \<and> z = 128))"

fun TrimLeft :: "string \<Rightarrow> string" where
  "TrimLeft [] = []"
| "TrimLeft (a # s) =
     (if is_space1 a then TrimLeft s
      else (case s of
              [] \<Rightarrow> a # s
            | b # s' \<Rightarrow>
                if is_space2 a b then TrimLeft s'
                else (case s' of
                        [] \<Rightarrow> a # s
                      | c # s'' \<Rightarrow> if is_space3 a b c then TrimLeft s'' else a # s)))"

text \<open>The same from the end; the argument is the string reversed.\<close>

fun TrimLeft_rev :: "string \<Rightarrow> string" where
  "TrimLeft_rev [] = []"
| "TrimLeft_rev (c # s) =
     (if is_space1 c then TrimLeft_rev s
      else (case s of
              [] \<Rightarrow> c # s
            | b # s' \<Rightarrow>
                if is_space2 b c then TrimLeft_rev s'
                else (case s' of
                        [] \<Rightarrow> c # s
                      | a # s'' \<Rightarrow> if is_space3 a b c then TrimLeft_rev s'' else c # s)))"

definition TrimRight :: "string \<Rightarrow> string" where
  "TrimRight s = rev (TrimLeft_rev (rev s))"

definition TrimSpace :: "string \<Rightarrow> string" where
  "TrimSpace s = TrimRight (TrimLeft s)"

text \<open>
  \<open>strings.Contains\<close> and \<open>strings.Split\<close> for a separator of one byte, which is how the
  program calls them (\<open>":"\<close>).
\<close>

definition Contains :: "string \<Rightarrow> char \<Rightarrow> bool" where
  "Contains s sep = (sep \<in> set s)"

fun Split :: "string \<Rightarrow> char \<Rightarrow> string list" where
  "Split [] sep = [[]]"
| "Split (x # xs) sep =
     (if x = sep then [] # Split xs sep
      else (case Split xs sep of [] \<Rightarrow> [[x]] | p # ps \<Rightarrow> (x # p) # ps))"

text \<open>
  \<open>strings.ToLower\<close> on the ASCII letters. The program only compares the result with
  \<open>"y"\<close>, and no other rune than \<open>Y\<close> has the lower case \<open>y\<close>.
\<close>

definition ToLower :: "string \<Rightarrow> string" where
  "ToLower s =
     map (\<lambda>c. if 65 \<le> (of_char c :: nat) \<and> (of_char c :: nat) \<le> 90
               then char_of ((of_char c :: nat) + 32) else c) s"

text \<open>
  \<open>strconv.Atoi\<close> for a 64-bit \<open>int\<close>, that is \<open>ParseInt(s, 10, 0)\<close>: an optional sign,
  then \<open>ParseUint\<close> on the rest, which reads decimal digits into a \<open>uint64\<close> and stops
  with a syntax error at the first other byte and with a range error as soon as the
  value leaves \<open>uint64\<close>; then the range check of \<open>int64\<close>.
\<close>

definition is_digit :: "char \<Rightarrow> bool" where
  "is_digit c = (48 \<le> (of_char c :: nat) \<and> (of_char c :: nat) \<le> 57)"

definition digit_val :: "char \<Rightarrow> nat" where
  "digit_val c = of_char c - 48"

fun parse_digits :: "string \<Rightarrow> nat \<Rightarrow> error + nat" where
  "parse_digits [] n = Inr n"
| "parse_digits (c # cs) n =
     (if \<not> is_digit c then Inl ErrSyntax
      else if n * 10 + digit_val c \<ge> 2 ^ 64 then Inl ErrRange
      else parse_digits cs (n * 10 + digit_val c))"

definition ParseUint :: "string \<Rightarrow> error + nat" where
  "ParseUint s = (if s = [] then Inl ErrSyntax else parse_digits s 0)"

definition Atoi :: "string \<Rightarrow> error + go_int" where
  "Atoi s =
     (case s of
        [] \<Rightarrow> Inl ErrSyntax
      | c # cs \<Rightarrow>
          let neg = (c = CHR ''-'');
              body = (if c = CHR ''+'' \<or> c = CHR ''-'' then cs else s)
          in (case ParseUint body of
                Inl e \<Rightarrow> Inl e
              | Inr un \<Rightarrow>
                  if \<not> neg \<and> un \<ge> 2 ^ 63 then Inl ErrRange
                  else if neg \<and> un > 2 ^ 63 then Inl ErrRange
                  else Inr (if neg then - word_of_nat un else word_of_nat un)))"

subsection \<open>Parsing a duration (lines 208-227)\<close>

definition parseDuration :: "string \<Rightarrow> error + Duration" where
  "parseDuration input0 =
     (let input = TrimSpace input0 in
      if Contains input CHR '':'' then
        (let parts = Split input CHR '':'' in
         if length parts \<noteq> 2 then Inl InvalidFormat
         else (case (Atoi (parts ! 0), Atoi (parts ! 1)) of
                 (Inr minutes, Inr seconds) \<Rightarrow> Inr (minutes * Minute + seconds * Second)
               | _ \<Rightarrow> Inl InvalidNumbers))
      else (case Atoi input of
              Inl e \<Rightarrow> Inl e
            | Inr minutes \<Rightarrow> Inr (minutes * Minute)))"

subsection \<open>Constructing a timer (lines 265-351)\<close>

text \<open>
  Standard input is the list of the lines still to be read. \<open>readLine\<close> takes the next
  one; at the end of the input \<open>ReadString\<close> fails, its error is dropped, and the line
  is empty.
\<close>

definition readLine :: "string list \<Rightarrow> string \<times> string list" where
  "readLine inp = (case inp of [] \<Rightarrow> ([], []) | l # ls \<Rightarrow> (TrimSpace l, ls))"

text \<open>
  The loop of lines 278-302. It has no bound: at the end of the input every duration
  read is empty and invalid, and the loop goes round forever (\<open>None\<close>).
\<close>

partial_function (option) read_phases ::
  "string list \<Rightarrow> TimerPhase list \<Rightarrow> (TimerPhase list \<times> string list) option" where
  "read_phases inp phs =
     (case parseDuration (fst (readLine inp)) of
        Inl e \<Rightarrow> read_phases (snd (readLine inp)) phs
      | Inr workDur \<Rightarrow>
          (case parseDuration (fst (readLine (snd (readLine inp)))) of
             Inl e \<Rightarrow> read_phases (snd (readLine (snd (readLine inp)))) phs
           | Inr breakDur \<Rightarrow>
               let phs' = phs @ [\<lparr>WorkDuration = workDur, BreakDuration = breakDur\<rparr>];
                   inp3 = snd (readLine (snd (readLine inp)))
               in if ToLower (fst (readLine inp3)) \<noteq> ''y'' then Some (phs', snd (readLine inp3))
                  else read_phases (snd (readLine inp3)) phs'))"

definition createTimer ::
  "string list \<Rightarrow> (error + (Timer \<times> TimerConfig \<times> string list)) option" where
  "createTimer inp =
     (let (name', inp1) = readLine inp;
          (notifText', inp2) = readLine inp1
      in (case read_phases inp2 [] of
            None \<Rightarrow> None
          | Some (phs, inp3) \<Rightarrow>
              let (cycleType, inp4) = readLine inp3;
                  maxCycles' =
                    (if cycleType \<noteq> ''u'' then
                       (case Atoi cycleType of
                          Inr n \<Rightarrow> if sint n > 0 then n else - 1
                        | Inl e \<Rightarrow> - 1)
                     else - 1);
                  config = \<lparr>Name = name', NotifText = notifText', Phases = phs,
                            MaxCycles = maxCycles'\<rparr>
              in (case index phs 0 of
                    Inl e \<Rightarrow> Some (Inl e)
                  | Inr p \<Rightarrow>
                      Some (Inr (\<lparr>state = \<lparr>isWork = True, currentTime = WorkDuration p,
                                           cycles = 1, currentPhase = 0, name = name',
                                           notifText = notifText'\<rparr>,
                                  phases = phs, maxCycles = maxCycles', isPaused = False\<rparr>,
                                 config, inp4)))))"

definition timerFromConfig :: "TimerConfig \<Rightarrow> error + Timer" where
  "timerFromConfig config =
     (case index (Phases config) 0 of
        Inl e \<Rightarrow> Inl e
      | Inr p \<Rightarrow>
          Inr \<lparr>state = \<lparr>isWork = True, currentTime = WorkDuration p, cycles = 1,
                        currentPhase = 0, name = Name config, notifText = NotifText config\<rparr>,
               phases = Phases config, maxCycles = MaxCycles config, isPaused = False\<rparr>)"

subsection \<open>UTF-8, as package \<open>encoding/json\<close> applies it to strings\<close>

text \<open>
  A rune is a code point. \<open>utf8_runes\<close> reads a string the way the encoder of
  \<open>encoding/json\<close> does, with \<open>utf8.DecodeRuneInString\<close>: a well-formed sequence of one
  to four bytes (shortest form, no surrogate, at most U+10FFFF) is its rune, and any
  other byte is one \<open>utf8.RuneError\<close>, U+FFFD. \<open>utf8_bytes\<close> writes runes back as the
  decoder does, with \<open>utf8.AppendRune\<close>. \<open>ValidString\<close> is \<open>utf8.ValidString\<close>.
\<close>

type_synonym rune = nat

definition RuneError :: rune where
  "RuneError = 0xFFFD"

definition cont :: "nat \<Rightarrow> bool" where
  "cont y = (0x80 \<le> y \<and> y \<le> 0xBF)"

definition is_seq2 :: "nat \<Rightarrow> nat \<Rightarrow> bool" where
  "is_seq2 x y = (0xC2 \<le> x \<and> x \<le> 0xDF \<and> cont y)"

definition is_seq3 :: "nat \<Rightarrow> nat \<Rightarrow> nat \<Rightarrow> bool" where
  "is_seq3 x y z =
     (0xE0 \<le> x \<and> x \<le> 0xEF \<and> cont y \<and> cont z \<and>
      (x = 0xE0 \<longrightarrow> 0xA0 \<le> y) \<and> (x = 0xED \<longrightarrow> y \<le> 0x9F))"

definition is_seq4 :: "nat \<Rightarrow> nat \<Rightarrow> nat \<Rightarrow> nat \<Rightarrow> bool" where
  "is_seq4 x y z w =
     (0xF0 \<le> x \<and> x \<le> 0xF4 \<and> cont y \<and> cont z \<and> cont w \<and>
      (x = 0xF0 \<longrightarrow> 0x90 \<le> y) \<and> (x = 0xF4 \<longrightarrow> y \<le> 0x8F))"

definition rune2 :: "nat \<Rightarrow> nat \<Rightarrow> rune" where
  "rune2 x y = (x - 0xC0) * 64 + (y - 0x80)"

definition rune3 :: "nat \<Rightarrow> nat \<Rightarrow> nat \<Rightarrow> rune" where
  "rune3 x y z = (x - 0xE0) * 4096 + (y - 0x80) * 64 + (z - 0x80)"

definition rune4 :: "nat \<Rightarrow> nat \<Rightarrow> nat \<Rightarrow> nat \<Rightarrow> rune" where
  "rune4 x y z w = (x - 0xF0) * 262144 + (y - 0x80) * 4096 + (z - 0x80) * 64 + (w - 0x80)"

fun utf8_runes :: "string \<Rightarrow> rune list" where
  "utf8_runes [] = []"
| "utf8_runes (a # s) =
     (if (of_char a :: nat) < 0x80 then of_char a # utf8_runes s
      else (case s of
              [] \<Rightarrow> [RuneError]
            | b # s1 \<Rightarrow>
                if is_seq2 (of_char a) (of_char b)
                then rune2 (of_char a) (of_char b) # utf8_runes s1
                else (case s1 of
                        [] \<Rightarrow> RuneError # utf8_runes s
                      | c # s2 \<Rightarrow>
                          if is_seq3 (of_char a) (of_char b) (of_char c)
                          then rune3 (of_char a) (of_char b) (of_char c) # utf8_runes s2
                          else (case s2 of
                                  [] \<Rightarrow> RuneError # utf8_runes s
                                | d # s3 \<Rightarrow>
                                    if is_seq4 (of_char a) (of_char b) (of_char c) (of_char d)
                                    then rune4 (of_char a) (of_char b) (of_char c) (of_char d)
                                           # utf8_runes s3
                                    else RuneError # utf8_runes s))))"

fun ValidString :: "string \<Rightarrow> bool" where
  "ValidString [] = True"
| "ValidString (a # s) =
     (if (of_char a :: nat) < 0x80 then ValidString s
      else (case s of
              [] \<Rightarrow> False
            | b # s1 \<Rightarrow>
                if is_seq2 (of_char a) (of_char b) then ValidString s1
                else (case s1 of
                        [] \<Rightarrow> False
                      | c # s2 \<Rightarrow>
                          if is_seq3 (of_char a) (of_char b) (of_char c) then ValidString s2
                          else (case s2 of
                                  [] \<Rightarrow> False
                                | d # s3 \<Rightarrow>
                                    is_seq4 (of_char a) (of_char b) (of_char c) (of_char d)
                                    \<and> ValidString s3))))"

definition AppendRune :: "rune \<Rightarrow> string" where
  "AppendRune r =
     (if r < 0x80 then [char_of r]
      else if r < 0x800 then [char_of (0xC0 + r div 64), char_of (0x80 + r mod 64)]
      else if r > 0x10FFFF \<or> (0xD800 \<le> r \<and> r \<le> 0xDFFF)
        then [char_of (0xEF :: nat), char_of (0xBF :: nat), char_of (0xBD :: nat)]
      else if r < 0x10000
        then [char_of (0xE0 + r div 4096), char_of (0x80 + (r div 64) mod 64),
              char_of (0x80 + r mod 64)]
      else [char_of (0xF0 + r div 262144), char_of (0x80 + (r div 4096) mod 64),
            char_of (0x80 + (r div 64) mod 64), char_of (0x80 + r mod 64)])"

definition utf8_bytes :: "rune list \<Rightarrow> string" where
  "utf8_bytes rs = concat (map AppendRune rs)"

subsection \<open>Persistence (lines 44-66, 184-206)\<close>

text \<open>
  The file holds a JSON document; the embedding keeps the value the document denotes
  and leaves its spelling to \<open>encoding/json\<close>. Numbers are the integer literals (all
  that this program writes), strings and keys are sequences of runes.
\<close>

datatype json =
    JNull
  | JBool bool
  | JNumber int
  | JString "rune list"
  | JArray "json list"
  | JObject "(rune list \<times> json) list"

text \<open>Writing: a struct is an object of its fields in order, a slice is an array.\<close>

definition MarshalJSON :: "TimerPhase \<Rightarrow> json" where
  "MarshalJSON p =
     JObject [(utf8_runes ''WorkDuration'', JNumber (sint (WorkDuration p))),
              (utf8_runes ''BreakDuration'', JNumber (sint (BreakDuration p)))]"

definition marshal_TimerConfig :: "TimerConfig \<Rightarrow> json" where
  "marshal_TimerConfig c =
     JObject [(utf8_runes ''Name'', JString (utf8_runes (Name c))),
              (utf8_runes ''NotifText'', JString (utf8_runes (NotifText c))),
              (utf8_runes ''Phases'', JArray (map MarshalJSON (Phases c))),
              (utf8_runes ''MaxCycles'', JNumber (sint (MaxCycles c)))]"

definition Encode :: "TimerConfig list \<Rightarrow> json" where
  "Encode cs = JArray (map marshal_TimerConfig cs)"

text \<open>
  Reading. A key selects the field whose name it equals up to the case folding of
  \<open>encoding/json\<close>; other keys are skipped; of two values for one field the later one
  stays. \<open>null\<close> leaves a number or a string as it is and empties a slice. A number
  must fit the integer type. The first error is the result.
\<close>

definition fold_rune :: "rune \<Rightarrow> rune" where
  "fold_rune r =
     (if 0x61 \<le> r \<and> r \<le> 0x7A then r - 32
      else if r = 0x17F then 0x53
      else if r = 0x212A then 0x4B
      else r)"

definition key_is :: "rune list \<Rightarrow> string \<Rightarrow> bool" where
  "key_is k field = (map fold_rune k = map fold_rune (utf8_runes field))"

definition unmarshal_int64 :: "json \<Rightarrow> go_int \<Rightarrow> error + go_int" where
  "unmarshal_int64 j old =
     (case j of
        JNull \<Rightarrow> Inr old
      | JNumber n \<Rightarrow>
          if - (2 ^ 63) \<le> n \<and> n < 2 ^ 63 then Inr (word_of_int n) else Inl UnmarshalTypeError
      | _ \<Rightarrow> Inl UnmarshalTypeError)"

definition unmarshal_string :: "json \<Rightarrow> string \<Rightarrow> error + string" where
  "unmarshal_string j old =
     (case j of
        JNull \<Rightarrow> Inr old
      | JString rs \<Rightarrow> Inr (utf8_bytes rs)
      | _ \<Rightarrow> Inl UnmarshalTypeError)"

text \<open>The \<open>aux\<close> struct of lines 56-59 is the pair of its two \<open>int64\<close> fields.\<close>

fun unmarshal_aux :: "(rune list \<times> json) list \<Rightarrow> go_int \<times> go_int \<Rightarrow> error + (go_int \<times> go_int)" where
  "unmarshal_aux [] aux = Inr aux"
| "unmarshal_aux ((k, v) # kvs) (w, b) =
     (if key_is k ''WorkDuration'' then
        (case unmarshal_int64 v w of
           Inl e \<Rightarrow> Inl e
         | Inr w' \<Rightarrow> unmarshal_aux kvs (w', b))
      else if key_is k ''BreakDuration'' then
        (case unmarshal_int64 v b of
           Inl e \<Rightarrow> Inl e
         | Inr b' \<Rightarrow> unmarshal_aux kvs (w, b'))
      else unmarshal_aux kvs (w, b))"

definition UnmarshalJSON :: "json \<Rightarrow> error + TimerPhase" where
  "UnmarshalJSON data =
     (case (case data of
              JNull \<Rightarrow> Inr (0, 0)
            | JObject kvs \<Rightarrow> unmarshal_aux kvs (0, 0)
            | _ \<Rightarrow> Inl UnmarshalTypeError) of
        Inl e \<Rightarrow> Inl e
      | Inr (w, b) \<Rightarrow> Inr \<lparr>WorkDuration = w, BreakDuration = b\<rparr>)"

fun unmarshal_phases :: "json list \<Rightarrow> error + TimerPhase list" where
  "unmarshal_phases [] = Inr []"
| "unmarshal_phases (j # js) =
     (case UnmarshalJSON j of
        Inl e \<Rightarrow> Inl e
      | Inr p \<Rightarrow>
          (case unmarshal_phases js of
             Inl e \<Rightarrow> Inl e
           | Inr ps \<Rightarrow> Inr (p # ps)))"

fun unmarshal_fields :: "(rune list \<times> json) list \<Rightarrow> TimerConfig \<Rightarrow> error + TimerConfig" where
  "unmarshal_fields [] c = Inr c"
| "unmarshal_fields ((k, v) # kvs) c =
     (if key_is k ''Name'' then
        (case unmarshal_string v (Name c) of
           Inl e \<Rightarrow> Inl e
         | Inr x \<Rightarrow> unmarshal_fields kvs (c\<lparr>Name := x\<rparr>))
      else if key_is k ''NotifText'' then
        (case unmarshal_string v (NotifText c) of
           Inl e \<Rightarrow> Inl e
         | Inr x \<Rightarrow> unmarshal_fields kvs (c\<lparr>NotifText := x\<rparr>))
      else if key_is k ''Phases'' then
        (case (case v of
                 JNull \<Rightarrow> Inr []
               | JArray js \<Rightarrow> unmarshal_phases js
               | _ \<Rightarrow> Inl UnmarshalTypeError) of
           Inl e \<Rightarrow> Inl e
         | Inr ps \<Rightarrow> unmarshal_fields kvs (c\<lparr>Phases := ps\<rparr>))
      else if key_is k ''MaxCycles'' then
        (case unmarshal_int64 v (MaxCycles c) of
           Inl e \<Rightarrow> Inl e
         | Inr x \<Rightarrow> unmarshal_fields kvs (c\<lparr>MaxCycles := x\<rparr>))
      else unmarshal_fields kvs c)"

definition unmarshal_TimerConfig :: "json \<Rightarrow> error + TimerConfig" where
  "unmarshal_TimerConfig j =
     (case j of
        JNull \<Rightarrow> Inr \<lparr>Name = [], NotifText = [], Phases = [], MaxCycles = 0\<rparr>
      | JObject kvs \<Rightarrow>
          unmarshal_fields kvs \<lparr>Name = [], NotifText = [], Phases = [], MaxCycles = 0\<rparr>
      | _ \<Rightarrow> Inl UnmarshalTypeError)"

fun unmarshal_list :: "json list \<Rightarrow> error + TimerConfig list" where
  "unmarshal_list [] = Inr []"
| "unmarshal_list (j # js) =
     (case unmarshal_TimerConfig j of
        Inl e \<Rightarrow> Inl e
      | Inr c \<Rightarrow>
          (case unmarshal_list js of
             Inl e \<Rightarrow> Inl e
           | Inr cs \<Rightarrow> Inr (c # cs)))"

definition Decode :: "json \<Rightarrow> error + TimerConfig list" where
  "Decode j =
     (case j of
        JNull \<Rightarrow> Inr []
      | JArray js \<Rightarrow> unmarshal_list js
      | _ \<Rightarrow> Inl UnmarshalTypeError)"

text \<open>
  The file \<open>timers.json\<close>: absent, or present with a JSON document or with bytes that
  are none; and whether \<open>os.Create\<close> and \<open>os.Open\<close> on it are refused.
\<close>

datatype file_content = Malformed | Document json

record filesys =
  configFile :: "file_content option"
  create_refused :: bool
  open_refused :: bool

definition saveTimerConfigs :: "TimerConfig list \<Rightarrow> filesys \<Rightarrow> error option \<times> filesys" where
  "saveTimerConfigs cs fs =
     (if create_refused fs then (Some PathError, fs)
      else (None, fs\<lparr>configFile := Some (Document (Encode cs))\<rparr>))"

definition loadTimerConfigs :: "filesys \<Rightarrow> error + TimerConfig list" where
  "loadTimerConfigs fs =
     (case configFile fs of
        None \<Rightarrow> Inr []
      | Some content \<Rightarrow>
          if open_refused fs then Inl PathError
          else (case content of
                  Malformed \<Rightarrow> Inl SyntaxError
                | Document j \<Rightarrow> Decode j))"

subsection \<open>Start-up and the commands that add and delete (lines 353-370, 398-408, 432-445)\<close>

text \<open>
  The program's state between two operations: the manager and the file. A failed save
  is printed and otherwise ignored.
\<close>

type_synonym world = "TimerManager \<times> filesys"

fun load_timers :: "TimerConfig list \<Rightarrow> Timer list \<Rightarrow> error + Timer list" where
  "load_timers [] ts = Inr ts"
| "load_timers (config # rest) ts =
     (case timerFromConfig config of
        Inl e \<Rightarrow> Inl e
      | Inr timer \<Rightarrow> load_timers rest (ts @ [timer]))"

definition main_init :: "filesys \<Rightarrow> error + world" where
  "main_init fs =
     (let tm = NewTimerManager;
          tm1 = (case loadTimerConfigs fs of
                   Inl e \<Rightarrow> tm
                 | Inr cs \<Rightarrow> tm\<lparr>configs := cs\<rparr>)
      in (case load_timers (configs tm1) (activeTimers tm1) of
            Inl e \<Rightarrow> Inl e
          | Inr ts \<Rightarrow> Inr (tm1\<lparr>activeTimers := ts\<rparr>, fs)))"

definition cmd_add :: "string list \<Rightarrow> world \<Rightarrow> (error + (world \<times> string list)) option" where
  "cmd_add inp w =
     (case createTimer inp of
        None \<Rightarrow> None
      | Some (Inl e) \<Rightarrow> Some (Inl e)
      | Some (Inr (timer, config, rest)) \<Rightarrow>
          let tm = fst w;
              tm' = tm\<lparr>activeTimers := activeTimers tm @ [timer],
                       configs := configs tm @ [config]\<rparr>
          in Some (Inr ((tm', snd (saveTimerConfigs (configs tm') (snd w))), rest)))"

text \<open>
  \<open>append(s[:num-1], s[num:]...)\<close> on both slices. The bound \<open>num\<close> is checked against
  \<open>activeTimers\<close> only; slicing \<open>configs\<close> beyond its length is a panic.
\<close>

definition cmd_delete :: "int \<Rightarrow> world \<Rightarrow> error + world" where
  "cmd_delete num w =
     (let tm = fst w in
      if num > 0 \<and> num \<le> int (length (activeTimers tm)) then
        (if num > int (length (configs tm)) then Inl SliceOutOfRange
         else
           let tm' = tm\<lparr>activeTimers :=
                           take (nat (num - 1)) (activeTimers tm) @ drop (nat num) (activeTimers tm),
                         configs :=
                           take (nat (num - 1)) (configs tm) @ drop (nat num) (configs tm)\<rparr>
           in Inr (tm', snd (saveTimerConfigs (configs tm') (snd w))))
      else Inr w)"

text \<open>
  One step of the running program: a firing of the ticker, the display goroutine taking
  a request, or a command. The runs start from \<open>main_init\<close>.
\<close>

inductive step :: "world \<Rightarrow> world \<Rightarrow> bool" where
  step_tick: "tick tm = Inr (tm', ns) \<Longrightarrow> step (tm, fs) (tm', fs)"
| step_render: "render tm = Some tm' \<Longrightarrow> step (tm, fs) (tm', fs)"
| step_pause: "step (tm, fs) (cmd_pause num tm, fs)"
| step_reset: "cmd_reset num tm = Inr tm' \<Longrightarrow> step (tm, fs) (tm', fs)"
| step_delete: "cmd_delete num w = Inr w' \<Longrightarrow> step w w'"
| step_add: "cmd_add inp w = Some (Inr (w', rest)) \<Longrightarrow> step w w'"

inductive reachable :: "world \<Rightarrow> bool" where
  reachable_init: "main_init fs = Inr w \<Longrightarrow> reachable w"
| reachable_step: "reachable w \<Longrightarrow> step w w' \<Longrightarrow> reachable w'"

subsection \<open>Properties that the specification names\<close>

text \<open>The invariant of the data model: the phase index of a timer is within its phases.\<close>

definition phase_index_ok :: "Timer \<Rightarrow> bool" where
  "phase_index_ok t =
     (0 \<le> sint (currentPhase (state t)) \<and> sint (currentPhase (state t)) < int (length (phases t)))"

text \<open>
  What a tick keeps of a list of timers: each timer after its own \<open>update\<close>, in the same
  order, without those that report completion.
\<close>

definition surviving :: "Timer list \<Rightarrow> Timer list" where
  "surviving ts =
     concat (map (\<lambda>t. case update t of
                         Inl e \<Rightarrow> []
                       | Inr (t', completed, ns) \<Rightarrow> if completed then [] else [t']) ts)"

text \<open>The redraw requests waiting in the mailbox, and its capacity of one.\<close>

definition pending :: "TimerManager \<Rightarrow> nat" where
  "pending tm = length (chan_buf (displayChan tm))"

definition mailbox_ok :: "TimerManager \<Rightarrow> bool" where
  "mailbox_ok tm = (chan_cap (displayChan tm) = 1 \<and> pending tm \<le> 1)"

text \<open>Every active timer satisfies the invariant of the phase index.\<close>

definition timers_index_ok :: "TimerManager \<Rightarrow> bool" where
  "timers_index_ok tm = list_all phase_index_ok (activeTimers tm)"

text \<open>
  The durable projection of a timer (name, notification text, phases, maximum of
  cycles), and the state in which a timer made for a configuration starts.
\<close>

definition config_of :: "Timer \<Rightarrow> TimerConfig" where
  "config_of t =
     \<lparr>Name = name (state t), NotifText = notifText (state t), Phases = phases t,
      MaxCycles = maxCycles t\<rparr>"

definition fresh_timer :: "TimerConfig \<Rightarrow> Timer \<Rightarrow> bool" where
  "fresh_timer c t =
     (isWork (state t) \<and> currentTime (state t) = WorkDuration (hd (Phases c)) \<and>
      cycles (state t) = 1 \<and> currentPhase (state t) = 0 \<and> \<not> isPaused t \<and>
      config_of t = c)"

text \<open>
  The dialogue of lines 278-302 as a function on the lines of the input that always
  returns: \<open>None\<close> when the lines end inside it, where the program's loop goes on
  reading an empty line forever.
\<close>

fun phases_dialogue ::
  "string list \<Rightarrow> TimerPhase list \<Rightarrow> (TimerPhase list \<times> string list) option" where
  "phases_dialogue [] phs = None"
| "phases_dialogue [w] phs = None"
| "phases_dialogue (w # b # inp) phs =
     (case parseDuration (TrimSpace w) of
        Inl e \<Rightarrow> phases_dialogue (b # inp) phs
      | Inr workDur \<Rightarrow>
          (case parseDuration (TrimSpace b) of
             Inl e \<Rightarrow> phases_dialogue inp phs
           | Inr breakDur \<Rightarrow>
               (case inp of
                  [] \<Rightarrow> Some (phs @ [\<lparr>WorkDuration = workDur, BreakDuration = breakDur\<rparr>], [])
                | ans # inp' \<Rightarrow>
                    if ToLower (TrimSpace ans) \<noteq> ''y''
                    then Some (phs @ [\<lparr>WorkDuration = workDur, BreakDuration = breakDur\<rparr>], inp')
                    else phases_dialogue inp'
                           (phs @ [\<lparr>WorkDuration = workDur, BreakDuration = breakDur\<rparr>]))))"

text \<open>
  A valid integer, as the text of a field: an optional sign, then one or more decimal
  digits, with a value in the range of a 64-bit \<open>int\<close>; and the value of such a text.
\<close>

definition unsigned_part :: "string \<Rightarrow> string" where
  "unsigned_part s =
     (case s of [] \<Rightarrow> [] | c # cs \<Rightarrow> if c = CHR ''+'' \<or> c = CHR ''-'' then cs else s)"

definition decimal_value :: "string \<Rightarrow> nat" where
  "decimal_value ds = foldl (\<lambda>n c. n * 10 + digit_val c) 0 ds"

definition integer_value :: "string \<Rightarrow> int" where
  "integer_value s =
     (if take 1 s = ''-'' then - int (decimal_value (unsigned_part s))
      else int (decimal_value (unsigned_part s)))"

definition fits_int64 :: "int \<Rightarrow> bool" where
  "fits_int64 k = (- (2 ^ 63) \<le> k \<and> k < 2 ^ 63)"

definition valid_integer :: "string \<Rightarrow> bool" where
  "valid_integer s =
     (unsigned_part s \<noteq> [] \<and> list_all is_digit (unsigned_part s) \<and>
      fits_int64 (integer_value s))"

text \<open>Minutes and seconds as a number of nanoseconds, in the integers.\<close>

definition duration_ns :: "int \<Rightarrow> int \<Rightarrow> int" where
  "duration_ns minutes seconds = (minutes * 60 + seconds) * 1000000000"

text \<open>
  What a string is after it was written to the file and read back: each byte that is
  not part of well-formed UTF-8 has become U+FFFD (\<open>strings.ToValidUTF8\<close> with that
  replacement); and a configuration with its two strings so treated.
\<close>

definition ToValidUTF8 :: "string \<Rightarrow> string" where
  "ToValidUTF8 s = utf8_bytes (utf8_runes s)"

definition reloaded :: "TimerConfig \<Rightarrow> TimerConfig" where
  "reloaded c = c\<lparr>Name := ToValidUTF8 (Name c), NotifText := ToValidUTF8 (NotifText c)\<rparr>"

section \<open>Facts about the transition function and the tick\<close>

lemma update_paused: "isPaused t \<Longrightarrow> update t = Inr (t, False, [])"
  by (simp add: update_def)

lemma update_phases: "update t = Inr (t', c, ns) \<Longrightarrow> phases t' = phases t"
  by (auto simp: update_def Let_def split: if_splits sum.splits)

lemma update_keeps_index_ok:
  "update t = Inr (t', False, ns) \<Longrightarrow> phase_index_ok t \<Longrightarrow> phase_index_ok t'"
  by (auto simp: update_def Let_def index_def phase_index_ok_def split: if_splits sum.splits)

lemma sint_succ:
  fixes x :: "64 word"
  assumes "sint x < 2 ^ 63 - 1"
  shows "sint (x + 1) = sint x + 1"
proof -
  have "- (2 ^ 63) \<le> sint x"
    using sint_ge [of x] by simp
  then show ?thesis
    using assms by (simp add: sint_word_ariths signed_take_bit_int_eq_self)
qed

lemma sint_succ_le:
  fixes x :: "64 word"
  shows "sint (x + 1) \<le> sint x + 1"
proof (cases "sint x < 2 ^ 63 - 1")
  case True
  then show ?thesis by (simp add: sint_succ)
next
  case False
  have "sint (x + 1) < 2 ^ 63"
    using sint_lt [of "x + 1"] by simp
  with False show ?thesis by simp
qed

lemma update_completed_index:
  assumes "update t = Inr (t', True, ns)" "phase_index_ok t"
  shows "sint (currentPhase (state t')) = int (length (phases t'))"
proof -
  from assms(1) have c: "currentPhase (state t') = currentPhase (state t) + 1"
    and ge: "int (length (phases t)) \<le> sint (currentPhase (state t) + 1)"
    and ph: "phases t' = phases t"
    by (auto simp: update_def Let_def split: if_splits sum.splits)
  have "sint (currentPhase (state t) + 1) \<le> sint (currentPhase (state t)) + 1"
    by (rule sint_succ_le)
  with assms(2) ge c ph show ?thesis
    by (simp add: phase_index_ok_def)
qed

lemma update_no_panic:
  assumes "phase_index_ok t" "length (phases t) < 2 ^ 63"
  shows "\<exists>t' c ns. update t = Inr (t', c, ns)"
proof -
  have "sint (currentPhase (state t)) < 2 ^ 63 - 1"
    using assms by (simp add: phase_index_ok_def)
  then have "sint (currentPhase (state t) + 1) = sint (currentPhase (state t)) + 1"
    by (rule sint_succ)
  with assms(1) show ?thesis
    by (auto simp: update_def Let_def index_def phase_index_ok_def split: sum.splits)
qed

lemma surviving_append: "surviving (xs @ ys) = surviving xs @ surviving ys"
  by (simp add: surviving_def)

lemma tick_loop_result:
  "tick_loop n ts nd ns = Inr (ts', nd', ns') \<Longrightarrow> n \<le> length ts \<Longrightarrow>
   ts' = surviving (take n ts) @ drop n ts \<and> nd' = (nd \<or> 0 < n)"
proof (induction n arbitrary: ts nd ns)
  case 0
  then show ?case by (simp add: surviving_def)
next
  case (Suc n)
  from Suc.prems(2) have lt: "n < length ts" by simp
  from Suc.prems(1) lt obtain t' c ns0 where
    u: "update (ts ! n) = Inr (t', c, ns0)" and
    r: "tick_loop n (if c then take n ts @ drop (Suc n) ts else ts[n := t']) True (ns @ ns0)
          = Inr (ts', nd', ns')"
    by (auto split: sum.splits)
  let ?ts1 = "if c then take n ts @ drop (Suc n) ts else ts[n := t']"
  have len: "n \<le> length ?ts1" using lt by auto
  from Suc.IH [OF r len] have
    res: "ts' = surviving (take n ?ts1) @ drop n ?ts1" and nd: "nd' = True"
    by simp_all
  have tk: "take n ?ts1 = take n ts" using lt by simp
  have dr: "drop n ?ts1 = (if c then [] else [t']) @ drop (Suc n) ts"
    using lt by (simp add: upd_conv_take_nth_drop)
  have sv: "surviving (take (Suc n) ts) = surviving (take n ts) @ (if c then [] else [t'])"
    using lt u by (simp add: take_Suc_conv_app_nth surviving_append) (simp add: surviving_def)
  show ?case
    using res nd tk dr sv by simp
qed


lemma sint_Second:
  "sint (2 * Second) = 2000000000" "sint Second = 1000000000"
  "2 * Second - Second = Second" "Second - Second = 0"
  by (simp_all add: Second_def)

lemma surviving_Nil: "surviving [] = []"
  by (simp add: surviving_def)

lemma surviving_Cons: "surviving (t # ts) = surviving [t] @ surviving ts"
  by (simp add: surviving_def)

lemma surviving_completed: "update t = Inr (t', True, ns) \<Longrightarrow> surviving [t] = []"
  by (simp add: surviving_def)

lemma surviving_kept: "update t = Inr (t', False, ns) \<Longrightarrow> surviving [t] = [t']"
  by (simp add: surviving_def)

lemma tick_activeTimers:
  assumes "tick tm = Inr (tm', ns)"
  shows "activeTimers tm' = surviving (activeTimers tm)"
    and "configs tm' = configs tm"
    and "displayChan tm' =
           (if activeTimers tm = [] then displayChan tm else try_send (displayChan tm) True)"
proof -
  from assms obtain ts nd where
    l: "tick_loop (length (activeTimers tm)) (activeTimers tm) False [] = Inr (ts, nd, ns)"
    and tm': "tm' = tm\<lparr>activeTimers := ts,
                 displayChan := (if nd then try_send (displayChan tm) True else displayChan tm)\<rparr>"
    by (auto simp: tick_def split: sum.splits)
  from tick_loop_result [OF l] have "ts = surviving (activeTimers tm)"
    and "nd = (activeTimers tm \<noteq> [])"
    by simp_all
  with tm' show "activeTimers tm' = surviving (activeTimers tm)"
    and "configs tm' = configs tm"
    and "displayChan tm' =
           (if activeTimers tm = [] then displayChan tm else try_send (displayChan tm) True)"
    by simp_all
qed

lemma surviving_index_ok:
  assumes "\<forall>t \<in> set ts. phase_index_ok t"
  shows "\<forall>t \<in> set (surviving ts). phase_index_ok t"
proof
  fix t' assume "t' \<in> set (surviving ts)"
  then obtain t ns where "t \<in> set ts" and "Inr (t', False, ns) = update t"
    by (auto simp: surviving_def split: sum.splits if_splits)
  with assms show "phase_index_ok t'"
    by (metis update_keeps_index_ok)
qed

lemma phase_index_ok_frame:
  "phase_index_ok (t\<lparr>isPaused := b\<rparr>) = phase_index_ok t"
  "phase_index_ok (t\<lparr>state := (state t)\<lparr>currentTime := d\<rparr>\<rparr>) = phase_index_ok t"
  by (simp_all add: phase_index_ok_def)

lemma list_all_update:
  "list_all P xs \<Longrightarrow> P x \<Longrightarrow> list_all P (xs[i := x])"
  by (induction xs arbitrary: i) (auto split: nat.splits)

lemma list_all_cut:
  "list_all P xs \<Longrightarrow> list_all P (take i xs @ drop j xs)"
  by (auto simp: list_all_iff dest: in_set_takeD in_set_dropD)

lemma tick_index_ok:
  "tick tm = Inr (tm', ns) \<Longrightarrow> timers_index_ok tm \<Longrightarrow> timers_index_ok tm'"
  using surviving_index_ok [of "activeTimers tm"]
  by (simp add: timers_index_ok_def tick_activeTimers(1) list_all_iff)

lemma render_frame:
  "render tm = Some tm' \<Longrightarrow> activeTimers tm' = activeTimers tm \<and> configs tm' = configs tm"
  by (auto simp: render_def split: option.splits)

lemma cmd_pause_index_ok:
  assumes "timers_index_ok tm"
  shows "timers_index_ok (cmd_pause num tm)"
proof (cases "num > 0 \<and> num \<le> int (length (activeTimers tm))")
  case True
  then have "nat (num - 1) < length (activeTimers tm)" by auto
  with assms have "phase_index_ok (activeTimers tm ! nat (num - 1))"
    by (simp add: timers_index_ok_def list_all_length)
  with assms True show ?thesis
    by (simp add: cmd_pause_def Let_def timers_index_ok_def list_all_update phase_index_ok_frame)
next
  case False
  with assms show ?thesis by (auto simp: cmd_pause_def)
qed

lemma cmd_reset_index_ok:
  assumes "cmd_reset num tm = Inr tm'" "timers_index_ok tm"
  shows "timers_index_ok tm'"
proof (cases "num > 0 \<and> num \<le> int (length (activeTimers tm))")
  case True
  then have "nat (num - 1) < length (activeTimers tm)" by auto
  with assms(2) have "phase_index_ok (activeTimers tm ! nat (num - 1))"
    by (simp add: timers_index_ok_def list_all_length)
  with assms True show ?thesis
    by (auto simp: cmd_reset_def Let_def timers_index_ok_def list_all_update phase_index_ok_frame
        split: sum.splits)
next
  case False
  with assms show ?thesis by (auto simp: cmd_reset_def)
qed

lemma cmd_delete_index_ok:
  assumes "cmd_delete num w = Inr w'" "timers_index_ok (fst w)"
  shows "timers_index_ok (fst w')"
proof (cases "num > 0 \<and> num \<le> int (length (activeTimers (fst w)))")
  case True
  with assms(1) have
    "activeTimers (fst w') =
       take (nat (num - 1)) (activeTimers (fst w)) @ drop (nat num) (activeTimers (fst w))"
    by (auto simp: cmd_delete_def Let_def split: if_splits)
  with assms(2) show ?thesis
    using list_all_cut [of phase_index_ok "activeTimers (fst w)" "nat (num - 1)" "nat num"]
    by (simp add: timers_index_ok_def)
next
  case False
  with assms show ?thesis by (auto simp: cmd_delete_def Let_def)
qed

lemma createTimer_index_ok:
  "createTimer inp = Some (Inr (timer, config, rest)) \<Longrightarrow> phase_index_ok timer"
  by (auto simp: createTimer_def Let_def index_def phase_index_ok_def
      split: prod.splits option.splits sum.splits if_splits)

lemma cmd_add_index_ok:
  "cmd_add inp w = Some (Inr (w', rest)) \<Longrightarrow> timers_index_ok (fst w) \<Longrightarrow> timers_index_ok (fst w')"
  by (auto simp: cmd_add_def timers_index_ok_def Let_def
      split: option.splits sum.splits prod.splits dest: createTimer_index_ok)

lemma timerFromConfig_index_ok:
  "timerFromConfig c = Inr t \<Longrightarrow> phase_index_ok t"
  by (auto simp: timerFromConfig_def index_def phase_index_ok_def split: sum.splits if_splits)

lemma load_timers_index_ok:
  "load_timers cs ts = Inr ts' \<Longrightarrow> list_all phase_index_ok ts \<Longrightarrow> list_all phase_index_ok ts'"
  by (induction cs ts rule: load_timers.induct)
     (auto split: sum.splits dest: timerFromConfig_index_ok)

lemma main_init_index_ok:
  "main_init fs = Inr w \<Longrightarrow> timers_index_ok (fst w)"
  by (auto simp: main_init_def timers_index_ok_def NewTimerManager_def Let_def
      split: sum.splits dest!: load_timers_index_ok)

lemma step_index_ok:
  "step w w' \<Longrightarrow> timers_index_ok (fst w) \<Longrightarrow> timers_index_ok (fst w')"
proof (induction rule: step.induct)
  case (step_tick tm tm' ns fs)
  then show ?case by (auto dest: tick_index_ok)
next
  case (step_render tm tm' fs)
  then show ?case by (auto simp: timers_index_ok_def dest: render_frame)
next
  case (step_pause tm fs num)
  then show ?case by (simp add: cmd_pause_index_ok)
next
  case (step_reset num tm tm' fs)
  then show ?case by (auto dest: cmd_reset_index_ok)
next
  case (step_delete num w w')
  then show ?case by (rule cmd_delete_index_ok)
next
  case (step_add inp w w' rest)
  then show ?case by (rule cmd_add_index_ok)
qed

lemma reachable_index_ok: "reachable w \<Longrightarrow> timers_index_ok (fst w)"
  by (induction rule: reachable.induct) (auto dest: main_init_index_ok step_index_ok)

lemma nth_cut:
  assumes "0 < n" "n \<le> length xs" "j < length xs - 1"
  shows "(take (n - 1) xs @ drop n xs) ! j = xs ! (if j < n - 1 then j else j + 1)"
  using assms by (auto simp: nth_append min_def)

lemma length_cut:
  assumes "0 < n" "n \<le> length xs"
  shows "length (take (n - 1) xs @ drop n xs) = length xs - 1"
  using assms by auto

lemma try_send_pending:
  assumes "chan_cap c = 1" "length (chan_buf c) \<le> 1"
  shows "chan_cap (try_send c v) = 1"
    and "length (chan_buf (try_send c v)) = 1"
    and "chan_buf (try_send c v) = (if chan_buf c = [] then [v] else chan_buf c)"
  using assms by (cases "chan_buf c"; simp add: try_send_def)+

lemma tick_mailbox:
  assumes "tick tm = Inr (tm', ns)" "mailbox_ok tm"
  shows "mailbox_ok tm'"
    and "activeTimers tm \<noteq> [] \<or> pending tm = 1 \<Longrightarrow> pending tm' = 1"
    and "activeTimers tm \<noteq> [] \<Longrightarrow>
         chan_buf (displayChan tm') =
           (if pending tm = 0 then [True] else chan_buf (displayChan tm))"
proof -
  have c: "chan_cap (displayChan tm) = 1" and l: "length (chan_buf (displayChan tm)) \<le> 1"
    using assms(2) by (simp_all add: mailbox_ok_def pending_def)
  note d = tick_activeTimers(3) [OF assms(1)]
  note s = try_send_pending [OF c l, of True]
  show "mailbox_ok tm'"
    using d s c l by (simp add: mailbox_ok_def pending_def)
  show "pending tm' = 1" if "activeTimers tm \<noteq> [] \<or> pending tm = 1"
    using that d s by (auto simp: pending_def)
  show "chan_buf (displayChan tm') =
           (if pending tm = 0 then [True] else chan_buf (displayChan tm))"
    if "activeTimers tm \<noteq> []"
    using that d s by (simp add: pending_def)
qed

lemma ticks_mailbox:
  "ticks n tm = Inr tm' \<Longrightarrow> mailbox_ok tm \<Longrightarrow>
   mailbox_ok tm' \<and> (pending tm = 1 \<longrightarrow> pending tm' = 1)"
proof (induction n arbitrary: tm)
  case 0
  then show ?case by simp
next
  case (Suc n)
  from Suc.prems(1) obtain tm1 ns where t: "tick tm = Inr (tm1, ns)" and r: "ticks n tm1 = Inr tm'"
    by (auto split: sum.splits)
  from tick_mailbox(1,2) [OF t Suc.prems(2)] Suc.IH [OF r] show ?case
    by blast
qed

lemma ticks_pending:
  assumes "ticks n tm = Inr tm'" "mailbox_ok tm" "0 < n" "activeTimers tm \<noteq> []"
  shows "pending tm' = 1"
proof -
  from assms(3) obtain m where n: "n = Suc m" by (cases n) auto
  with assms(1) obtain tm1 ns where t: "tick tm = Inr (tm1, ns)" and r: "ticks m tm1 = Inr tm'"
    by (auto split: sum.splits)
  from tick_mailbox(1,2) [OF t assms(2)] assms(4) ticks_mailbox [OF r] show ?thesis
    by blast
qed

lemma render_mailbox: "render tm = Some tm' \<Longrightarrow> mailbox_ok tm \<Longrightarrow> mailbox_ok tm'"
  by (auto simp: render_def recv_def mailbox_ok_def pending_def split: option.splits list.splits)

lemma cmd_pause_chan: "displayChan (cmd_pause num tm) = displayChan tm"
  by (simp add: cmd_pause_def Let_def)

lemma cmd_reset_chan: "cmd_reset num tm = Inr tm' \<Longrightarrow> displayChan tm' = displayChan tm"
  by (auto simp: cmd_reset_def Let_def split: if_splits sum.splits)

lemma cmd_delete_chan: "cmd_delete num w = Inr w' \<Longrightarrow> displayChan (fst w') = displayChan (fst w)"
  by (auto simp: cmd_delete_def Let_def split: if_splits)

lemma cmd_add_chan:
  "cmd_add inp w = Some (Inr (w', rest)) \<Longrightarrow> displayChan (fst w') = displayChan (fst w)"
  by (auto simp: cmd_add_def Let_def split: option.splits sum.splits prod.splits)

lemma main_init_mailbox: "main_init fs = Inr w \<Longrightarrow> mailbox_ok (fst w)"
  by (auto simp: main_init_def NewTimerManager_def make_chan_def mailbox_ok_def pending_def Let_def
      split: sum.splits)

lemma step_mailbox: "step w w' \<Longrightarrow> mailbox_ok (fst w) \<Longrightarrow> mailbox_ok (fst w')"
proof (induction rule: step.induct)
  case (step_tick tm tm' ns fs)
  then show ?case by (auto dest: tick_mailbox(1))
next
  case (step_render tm tm' fs)
  then show ?case by (auto dest: render_mailbox)
next
  case (step_pause tm fs num)
  then show ?case by (simp add: mailbox_ok_def pending_def cmd_pause_chan)
next
  case (step_reset num tm tm' fs)
  then show ?case by (auto simp: mailbox_ok_def pending_def dest: cmd_reset_chan)
next
  case (step_delete num w w')
  then show ?case by (auto simp: mailbox_ok_def pending_def dest: cmd_delete_chan)
next
  case (step_add inp w w' rest)
  then show ?case by (auto simp: mailbox_ok_def pending_def dest: cmd_add_chan)
qed

lemma reachable_mailbox: "reachable w \<Longrightarrow> mailbox_ok (fst w)"
  by (induction rule: reachable.induct) (auto dest: main_init_mailbox step_mailbox)

lemma main_init_example:
  "main_init
     \<lparr>configFile = Some (Document (JArray [JObject [(utf8_runes ''Phases'', JArray [JNull])]])),
           create_refused = False, open_refused = False\<rparr> =
   Inr (\<lparr>activeTimers =
           [\<lparr>state = \<lparr>isWork = True, currentTime = 0, cycles = 1, currentPhase = 0,
                      name = [], notifText = []\<rparr>,
             phases = [\<lparr>WorkDuration = 0, BreakDuration = 0\<rparr>],
             maxCycles = 0, isPaused = False\<rparr>],
         configs = [\<lparr>Name = [], NotifText = [],
                     Phases = [\<lparr>WorkDuration = 0, BreakDuration = 0\<rparr>], MaxCycles = 0\<rparr>],
         displayChan = \<lparr>chan_cap = 1, chan_buf = []\<rparr>\<rparr>,
        \<lparr>configFile = Some (Document (JArray [JObject [(utf8_runes ''Phases'', JArray [JNull])]])),
           create_refused = False, open_refused = False\<rparr>)"
  by (simp add: main_init_def loadTimerConfigs_def Decode_def unmarshal_TimerConfig_def key_is_def
     UnmarshalJSON_def timerFromConfig_def index_def NewTimerManager_def make_chan_def Let_def
     fold_rune_def)

lemma read_phases_extends:
  assumes "read_phases inp phs = Some r"
  shows "\<exists>ps. ps \<noteq> [] \<and> fst r = phs @ ps"
proof (rule read_phases.raw_induct
         [where P = "\<lambda>inp phs r. \<exists>ps. ps \<noteq> [] \<and> fst r = phs @ ps", OF _ assms],
       goal_cases)
  case (1 rp inp phs r)
  show ?case
  proof (cases "parseDuration (fst (readLine inp))")
    case (Inl e)
    with 1(2) have "rp (snd (readLine inp)) phs = Some r" by simp
    then show ?thesis by (rule 1(1))
  next
    case w: (Inr workDur)
    show ?thesis
    proof (cases "parseDuration (fst (readLine (snd (readLine inp))))")
      case (Inl e)
      with w 1(2) have "rp (snd (readLine (snd (readLine inp)))) phs = Some r" by simp
      then show ?thesis by (rule 1(1))
    next
      case b: (Inr breakDur)
      let ?phs' = "phs @ [\<lparr>WorkDuration = workDur, BreakDuration = breakDur\<rparr>]"
      let ?inp3 = "snd (readLine (snd (readLine inp)))"
      show ?thesis
      proof (cases "ToLower (fst (readLine ?inp3)) = ''y''")
        case True
        with w b 1(2) have "rp (snd (readLine ?inp3)) ?phs' = Some r"
          by (simp add: Let_def)
        from 1(1) [OF this] obtain ps where "fst r = ?phs' @ ps" by blast
        then show ?thesis by auto
      next
        case False
        with w b 1(2) have "r = (?phs', snd (readLine ?inp3))"
          by (simp add: Let_def)
        then show ?thesis by auto
      qed
    qed
  qed
qed

lemma createTimer_result:
  assumes "createTimer inp = Some r"
  shows "\<exists>t c rest. r = Inr (t, c, rest) \<and> Phases c \<noteq> [] \<and> fresh_timer c t"
proof -
  from assms obtain phs inp3 where
    rp: "read_phases (snd (readLine (snd (readLine inp)))) [] = Some (phs, inp3)"
    by (auto simp: createTimer_def Let_def split: prod.splits option.splits)
  from read_phases_extends [OF rp] have ne: "phs \<noteq> []" by auto
  then have i: "index phs 0 = Inr (hd phs)"
    by (cases phs) (simp_all add: index_def)
  from assms rp ne i show ?thesis
    by (auto simp: createTimer_def Let_def fresh_timer_def config_of_def split: prod.splits)
qed

lemma timerFromConfig_fresh:
  assumes "Phases c \<noteq> []"
  shows "\<exists>t. timerFromConfig c = Inr t \<and> fresh_timer c t"
proof -
  from assms have "index (Phases c) 0 = Inr (hd (Phases c))"
    by (cases "Phases c") (simp_all add: index_def)
  then show ?thesis
    by (simp add: timerFromConfig_def fresh_timer_def config_of_def)
qed

lemma read_phases_one:
  assumes "parseDuration (TrimSpace w) = Inr wd"
    and "parseDuration (TrimSpace b) = Inr bd"
    and "ToLower (TrimSpace ans) \<noteq> ''y''"
  shows "read_phases (w # b # ans # rest) phs =
           Some (phs @ [\<lparr>WorkDuration = wd, BreakDuration = bd\<rparr>], rest)"
  by (subst read_phases.simps) (simp add: readLine_def assms Let_def)

lemma TrimSpace_examples:
  "TrimSpace ''tea'' = ''tea''" "TrimSpace ''brew'' = ''brew''" "TrimSpace ''25'' = ''25''"
  "TrimSpace '' 5'' = ''5''" "TrimSpace ''n'' = ''n''" "TrimSpace ''3 '' = ''3''"
  by (simp_all add: TrimSpace_def TrimRight_def is_space1_def is_space2_def is_space3_def)

lemma parseDuration_examples:
  "parseDuration ''25'' = Inr (25 * Minute)" "parseDuration ''5'' = Inr (5 * Minute)"
  by (simp_all add: parseDuration_def TrimSpace_examples TrimSpace_def TrimRight_def is_space1_def is_space2_def is_space3_def Contains_def Atoi_def ParseUint_def is_digit_def digit_val_def Let_def)

lemma createTimer_example:
  "createTimer [''tea'', ''brew'', ''25'', '' 5'', ''n'', ''3 '', ''p 1''] =
   Some (Inr (\<lparr>state = \<lparr>isWork = True, currentTime = 25 * Minute, cycles = 1, currentPhase = 0,
                         name = ''tea'', notifText = ''brew''\<rparr>,
                phases = [\<lparr>WorkDuration = 25 * Minute, BreakDuration = 5 * Minute\<rparr>],
                maxCycles = 3, isPaused = False\<rparr>,
               \<lparr>Name = ''tea'', NotifText = ''brew'',
                Phases = [\<lparr>WorkDuration = 25 * Minute, BreakDuration = 5 * Minute\<rparr>],
                MaxCycles = 3\<rparr>,
               [''p 1'']))"
proof -
  have "read_phases [''25'', '' 5'', ''n'', ''3 '', ''p 1''] [] =
          Some ([] @ [\<lparr>WorkDuration = 25 * Minute, BreakDuration = 5 * Minute\<rparr>], [''3 '', ''p 1''])"
    by (rule read_phases_one) (simp_all add: TrimSpace_examples parseDuration_examples ToLower_def)
  then show ?thesis
    by (simp add: createTimer_def readLine_def TrimSpace_examples index_def Atoi_def ParseUint_def
        is_digit_def digit_val_def Let_def)
qed

lemma load_timers_fresh:
  "load_timers cs ts = Inr ts' \<Longrightarrow> \<exists>new. ts' = ts @ new \<and> list_all2 fresh_timer cs new"
proof (induction cs ts rule: load_timers.induct)
  case (1 ts)
  then show ?case by simp
next
  case (2 config rest ts)
  from "2.prems" obtain timer where
    t: "timerFromConfig config = Inr timer" and
    r: "load_timers rest (ts @ [timer]) = Inr ts'"
    by (auto split: sum.splits)
  from t have ne: "Phases config \<noteq> []"
    by (auto simp: timerFromConfig_def index_def split: if_splits)
  from timerFromConfig_fresh [OF ne] t have f: "fresh_timer config timer" by simp
  from "2.IH" [OF t r] obtain new where "ts' = (ts @ [timer]) @ new" "list_all2 fresh_timer rest new"
    by blast
  with f have "ts' = ts @ (timer # new) \<and> list_all2 fresh_timer (config # rest) (timer # new)"
    by simp
  then show ?case by blast
qed

lemma main_init_fresh:
  assumes "main_init fs = Inr w"
  shows "list_all2 fresh_timer (configs (fst w)) (activeTimers (fst w))"
proof -
  let ?tm1 = "case loadTimerConfigs fs of Inl e \<Rightarrow> NewTimerManager
              | Inr cs \<Rightarrow> NewTimerManager\<lparr>configs := cs\<rparr>"
  from assms obtain ts where l: "load_timers (configs ?tm1) (activeTimers ?tm1) = Inr ts"
    and w: "w = (?tm1\<lparr>activeTimers := ts\<rparr>, fs)"
    by (auto simp: main_init_def Let_def split: sum.splits)
  have "activeTimers ?tm1 = []"
    by (simp add: NewTimerManager_def split: sum.splits)
  with load_timers_fresh [OF l] have "list_all2 fresh_timer (configs ?tm1) ts" by simp
  with w show ?thesis by simp
qed

lemma TrimSpace_Nil: "TrimSpace [] = []"
  by (simp add: TrimSpace_def TrimRight_def)

lemma parseDuration_Nil: "parseDuration [] = Inl ErrSyntax"
  by (simp add: parseDuration_def TrimSpace_Nil Contains_def Atoi_def)

lemma readLine_simps:
  "readLine [] = ([], [])" "readLine (l # ls) = (TrimSpace l, ls)"
  by (simp_all add: readLine_def)

lemma read_phases_sound:
  assumes "read_phases inp phs = Some r"
  shows "phases_dialogue inp phs = Some r"
proof (rule read_phases.raw_induct
         [where P = "\<lambda>inp phs r. phases_dialogue inp phs = Some r", OF _ assms],
       goal_cases)
  case (1 rp inp phs r)
  note IH = 1(1) and eq = 1(2)
  show ?case
  proof (cases inp)
    case Nil
    with eq have "rp [] phs = Some r"
      by (simp add: readLine_simps parseDuration_Nil)
    from IH [OF this] show ?thesis by simp
  next
    case (Cons w inp1)
    show ?thesis
    proof (cases "parseDuration (TrimSpace w)")
      case (Inl e)
      with eq Cons have "rp inp1 phs = Some r"
        by (simp add: readLine_simps)
      from IH [OF this] Inl Cons show ?thesis
        by (cases inp1) simp_all
    next
      case w: (Inr workDur)
      show ?thesis
      proof (cases inp1)
        case Nil
        with eq Cons w have "rp [] phs = Some r"
          by (simp add: readLine_simps parseDuration_Nil)
        from IH [OF this] show ?thesis by simp
      next
        case b: (Cons b inp2)
        show ?thesis
        proof (cases "parseDuration (TrimSpace b)")
          case (Inl e)
          with eq Cons w b have "rp inp2 phs = Some r"
            by (simp add: readLine_simps)
          from IH [OF this] Inl Cons w b show ?thesis by simp
        next
          case bd: (Inr breakDur)
          let ?phs' = "phs @ [\<lparr>WorkDuration = workDur, BreakDuration = breakDur\<rparr>]"
          show ?thesis
          proof (cases inp2)
            case Nil
            with eq Cons w b bd show ?thesis
              by (simp add: readLine_simps Let_def ToLower_def)
          next
            case a: (Cons ans inp3)
            show ?thesis
            proof (cases "ToLower (TrimSpace ans) = ''y''")
              case True
              with eq Cons w b bd a have "rp inp3 ?phs' = Some r"
                by (simp add: readLine_simps Let_def)
              from IH [OF this] True Cons w b bd a show ?thesis by simp
            next
              case False
              with eq Cons w b bd a show ?thesis
                by (simp add: readLine_simps Let_def)
            qed
          qed
        qed
      qed
    qed
  qed
qed

lemma read_phases_complete:
  "phases_dialogue inp phs = Some r \<Longrightarrow> read_phases inp phs = Some r"
proof (induction inp phs rule: phases_dialogue.induct)
  case (1 phs)
  then show ?case by simp
next
  case (2 w phs)
  then show ?case by simp
next
  case (3 w b inp phs)
  show ?case
  proof (cases "parseDuration (TrimSpace w)")
    case (Inl e)
    with 3 show ?thesis
      by (subst read_phases.simps) (simp add: readLine_simps)
  next
    case w: (Inr workDur)
    show ?thesis
    proof (cases "parseDuration (TrimSpace b)")
      case (Inl e)
      with 3 w show ?thesis
        by (subst read_phases.simps) (simp add: readLine_simps)
    next
      case bd: (Inr breakDur)
      show ?thesis
      proof (cases inp)
        case Nil
        with 3 w bd show ?thesis
          by (subst read_phases.simps) (simp add: readLine_simps Let_def ToLower_def)
      next
        case (Cons ans inp')
        with 3 w bd show ?thesis
          by (subst read_phases.simps) (auto simp: readLine_simps Let_def split: if_splits)
      qed
    qed
  qed
qed

lemma read_phases_eq: "read_phases inp phs = phases_dialogue inp phs"
proof (cases "phases_dialogue inp phs")
  case None
  have "read_phases inp phs \<noteq> Some r" for r
    using read_phases_sound [of inp phs r] None by auto
  with None show ?thesis by (cases "read_phases inp phs") auto
next
  case (Some r)
  then show ?thesis by (simp add: read_phases_complete)
qed

lemma drop2_readLine: "snd (readLine (snd (readLine inp))) = drop 2 inp"
proof (cases inp)
  case Nil
  then show ?thesis by (simp add: readLine_simps)
next
  case (Cons a as)
  then show ?thesis by (cases as) (simp_all add: readLine_simps)
qed

lemma createTimer_None:
  assumes "phases_dialogue (drop 2 inp) [] = None"
  shows "createTimer inp = None"
proof -
  have "read_phases (snd (readLine (snd (readLine inp)))) [] = None"
    using assms by (simp add: read_phases_eq drop2_readLine)
  then show ?thesis
    by (auto simp: createTimer_def Let_def split: prod.splits)
qed

lemma createTimer_Some:
  assumes "phases_dialogue (drop 2 inp) [] = Some (phs, rest)"
  shows "\<exists>t c. createTimer inp = Some (Inr (t, c, snd (readLine rest))) \<and>
           Phases c = phs \<and> Name c = fst (readLine inp) \<and>
           NotifText c = fst (readLine (snd (readLine inp))) \<and> fresh_timer c t"
proof -
  have rp: "read_phases (snd (readLine (snd (readLine inp)))) [] = Some (phs, rest)"
    using assms by (simp add: read_phases_eq drop2_readLine)
  from read_phases_extends [OF rp] have ne: "phs \<noteq> []" by auto
  then have i: "index phs 0 = Inr (hd phs)"
    by (cases phs) (simp_all add: index_def)
  from rp ne i show ?thesis
    by (auto simp: createTimer_def Let_def fresh_timer_def config_of_def split: prod.splits)
qed

lemma createTimer_one_phase:
  assumes "parseDuration (TrimSpace wl) = Inr wd"
    and "parseDuration (TrimSpace bl) = Inr bd"
    and "ToLower (TrimSpace ans) \<noteq> ''y''"
  shows "\<exists>t c. createTimer (nm # nt # wl # bl # ans # others) = Some (Inr (t, c, drop 1 others)) \<and>
           Phases c = [\<lparr>WorkDuration = wd, BreakDuration = bd\<rparr>] \<and> fresh_timer c t"
proof -
  have "phases_dialogue (drop 2 (nm # nt # wl # bl # ans # others)) [] =
          Some ([\<lparr>WorkDuration = wd, BreakDuration = bd\<rparr>], others)"
    using assms by simp
  from createTimer_Some [OF this] show ?thesis
    by (cases others) (auto simp: readLine_simps)
qed

lemma foldl_digits_ge: "n \<le> foldl (\<lambda>n c. n * 10 + digit_val c) n cs"
proof (induction cs arbitrary: n)
  case Nil
  then show ?case by simp
next
  case (Cons c cs)
  have "n \<le> n * 10 + digit_val c" by simp
  also have "\<dots> \<le> foldl (\<lambda>n c. n * 10 + digit_val c) (n * 10 + digit_val c) cs"
    by (rule Cons.IH)
  finally show ?case by simp
qed

lemma parse_digits_iff:
  "n < 2 ^ 64 \<Longrightarrow>
   parse_digits cs n = Inr v \<longleftrightarrow>
     list_all is_digit cs \<and> v = foldl (\<lambda>n c. n * 10 + digit_val c) n cs \<and> v < 2 ^ 64"
proof (induction cs arbitrary: n)
  case Nil
  then show ?case by auto
next
  case (Cons c cs)
  show ?case
  proof (cases "is_digit c \<and> n * 10 + digit_val c < 2 ^ 64")
    case True
    then show ?thesis using Cons.IH [of "n * 10 + digit_val c"] by simp
  next
    case False
    have "2 ^ 64 \<le> foldl (\<lambda>n c. n * 10 + digit_val c) (n * 10 + digit_val c) cs"
      if "2 ^ 64 \<le> n * 10 + digit_val c"
      using that foldl_digits_ge [of "n * 10 + digit_val c" cs] by linarith
    with False show ?thesis by auto
  qed
qed

lemma ParseUint_iff:
  "ParseUint s = Inr v \<longleftrightarrow>
     s \<noteq> [] \<and> list_all is_digit s \<and> v = decimal_value s \<and> v < 2 ^ 64"
  using parse_digits_iff [of 0 s v] by (auto simp: ParseUint_def decimal_value_def)

lemma sint_word_of_int_fits:
  "fits_int64 k \<Longrightarrow> sint (word_of_int k :: 64 word) = k"
  by (simp add: fits_int64_def sint_sbintrunc' signed_take_bit_int_eq_self)

lemma Atoi_unsigned_part:
  "Atoi s =
     (case ParseUint (unsigned_part s) of
        Inl e \<Rightarrow> Inl e
      | Inr un \<Rightarrow>
          if take 1 s \<noteq> ''-'' \<and> un \<ge> 2 ^ 63 then Inl ErrRange
          else if take 1 s = ''-'' \<and> un > 2 ^ 63 then Inl ErrRange
          else Inr (if take 1 s = ''-'' then - word_of_nat un else word_of_nat un))"
  by (cases s) (auto simp: Atoi_def unsigned_part_def ParseUint_def Let_def split: sum.splits)

lemma Atoi_iff:
  "Atoi s = Inr v \<longleftrightarrow> valid_integer s \<and> v = word_of_int (integer_value s)"
proof (cases "ParseUint (unsigned_part s)")
  case (Inl e)
  then have "\<not> (unsigned_part s \<noteq> [] \<and> list_all is_digit (unsigned_part s) \<and>
               decimal_value (unsigned_part s) < 2 ^ 64)"
    using ParseUint_iff [of "unsigned_part s" "decimal_value (unsigned_part s)"] by auto
  moreover have "decimal_value (unsigned_part s) < 2 ^ 64" if "fits_int64 (integer_value s)"
    using that by (auto simp: fits_int64_def integer_value_def split: if_splits)
  ultimately have "\<not> valid_integer s"
    by (auto simp: valid_integer_def)
  with Inl show ?thesis
    by (simp add: Atoi_unsigned_part)
next
  case (Inr un)
  then have un: "unsigned_part s \<noteq> []" "list_all is_digit (unsigned_part s)"
    "decimal_value (unsigned_part s) = un"
    using ParseUint_iff [of "unsigned_part s" un] by auto
  show ?thesis
  proof (cases "take 1 s = ''-''")
    case True
    with Inr un show ?thesis
      by (auto simp: Atoi_unsigned_part valid_integer_def fits_int64_def integer_value_def)
  next
    case False
    with Inr un show ?thesis
      by (auto simp: Atoi_unsigned_part valid_integer_def fits_int64_def integer_value_def)
  qed
qed

lemma Atoi_sint:
  assumes "Atoi s = Inr v"
  shows "sint v = integer_value s"
proof -
  from assms have "valid_integer s" "v = word_of_int (integer_value s)"
    by (simp_all add: Atoi_iff)
  then show ?thesis
    by (simp add: valid_integer_def sint_word_of_int_fits)
qed

lemma Split_not_Nil: "Split s c \<noteq> []"
  by (induction s) (auto split: list.splits)

lemma Split_no_sep: "c \<notin> set s \<Longrightarrow> Split s c = [s]"
  by (induction s) auto

lemma Split_first: "c \<notin> set a \<Longrightarrow> Split (a @ c # b) c = a # Split b c"
  by (induction a) auto

lemma length_Split: "length (Split s c) = Suc (count_list s c)"
proof (induction s)
  case Nil
  then show ?case by simp
next
  case (Cons x xs)
  then show ?case
    by (cases "Split xs c") auto
qed

lemma Split_two_iff:
  "length (Split s c) = 2 \<longleftrightarrow> (\<exists>a b. s = a @ c # b \<and> c \<notin> set a \<and> c \<notin> set b)"
proof
  assume l: "length (Split s c) = 2"
  then have "count_list s c \<noteq> 0"
    by (simp add: length_Split)
  then have "c \<in> set s"
    by (simp add: count_list_0_iff)
  then obtain a b where s: "s = a @ c # b" and a: "c \<notin> set a"
    by (auto dest: split_list_first)
  from l s a have "length (Split b c) = 1"
    by (simp add: Split_first)
  then have "c \<notin> set b"
    by (simp add: length_Split count_list_0_iff)
  with s a show "\<exists>a b. s = a @ c # b \<and> c \<notin> set a \<and> c \<notin> set b" by blast
next
  assume "\<exists>a b. s = a @ c # b \<and> c \<notin> set a \<and> c \<notin> set b"
  then show "length (Split s c) = 2"
    by (auto simp: Split_first Split_no_sep)
qed

lemma Split_two:
  "c \<notin> set a \<Longrightarrow> c \<notin> set b \<Longrightarrow> Split (a @ c # b) c = [a, b]"
  by (simp add: Split_first Split_no_sep)

lemma duration_word:
  "(word_of_int m :: Duration) * Minute + word_of_int s * Second = word_of_int (duration_ns m s)"
  by (simp add: Minute_def Second_def duration_ns_def algebra_simps)

lemma AppendRune_ascii: "x < 128 \<Longrightarrow> AppendRune x = [char_of x]"
  by (simp add: AppendRune_def)

lemma divmod_base:
  fixes q r m :: nat
  assumes "r < m"
  shows "(q * m + r) div m = q" "(q * m + r) mod m = r"
  using assms by simp_all

lemma AppendRune_seq2:
  assumes "is_seq2 x y"
  shows "AppendRune (rune2 x y) = [char_of x, char_of y]"
proof -
  obtain a b where x: "x = 192 + a" and y: "y = 128 + b" and a: "2 \<le> a" "a \<le> 31" and b: "b < 64"
    using assms by (auto simp: is_seq2_def cont_def intro: that [of "x - 192" "y - 128"])
  let ?r = "a * 64 + b"
  have r: "rune2 x y = ?r"
    by (simp add: rune2_def x y)
  have rng: "\<not> ?r < 128" "?r < 2048"
    using a b by auto
  note dm = divmod_base [OF b, of a]
  show ?thesis
    unfolding AppendRune_def r by (simp only: rng if_False if_True dm x y)
qed

lemma AppendRune_seq3:
  assumes "is_seq3 x y z"
  shows "AppendRune (rune3 x y z) = [char_of x, char_of y, char_of z]"
proof -
  obtain a b c where x: "x = 224 + a" and y: "y = 128 + b" and z: "z = 128 + c"
    and a: "a \<le> 15" and b: "b < 64" and c: "c < 64"
    and lo: "a = 0 \<longrightarrow> 32 \<le> b" and su: "a = 13 \<longrightarrow> b \<le> 31"
    using assms
    by (auto simp: is_seq3_def cont_def intro: that [of "x - 224" "y - 128" "z - 128"])
  define r where "r = a * 4096 + b * 64 + c"
  have r: "rune3 x y z = r"
    by (simp add: rune3_def x y z r_def)
  have e1: "r = a * 4096 + (b * 64 + c)" and e2: "r = (a * 64 + b) * 64 + c"
    by (simp_all add: r_def)
  have bc: "b * 64 + c < 4096" using b c by auto
  have d1: "r div 4096 = a"
    by (subst e1) (rule divmod_base(1) [OF bc])
  have d2: "r div 64 = a * 64 + b"
    by (subst e2) (rule divmod_base(1) [OF c])
  have d3: "r mod 64 = c"
    by (subst e2) (rule divmod_base(2) [OF c])
  have d4: "(a * 64 + b) mod 64 = b"
    by (rule divmod_base(2) [OF b])
  have sur: "\<not> (55296 \<le> r \<and> r \<le> 57343)"
  proof -
    consider "a \<le> 12" | "a = 13" | "14 \<le> a" by linarith
    then show ?thesis
    proof cases
      case 1
      then show ?thesis using b c by (simp add: r_def)
    next
      case 2
      then show ?thesis using su c by (simp add: r_def)
    next
      case 3
      then show ?thesis by (simp add: r_def)
    qed
  qed
  have "2048 \<le> r" "r < 65536"
    using a b c lo by (auto simp: r_def)
  with sur have rng: "\<not> r < 128" "\<not> r < 2048" "\<not> (r > 1114111 \<or> (55296 \<le> r \<and> r \<le> 57343))"
    "r < 65536"
    by auto
  show ?thesis
    unfolding AppendRune_def r
    by (simp only: rng if_False if_True d1 d2 d3 d4) (simp only: x y z)
qed

lemma AppendRune_seq4:
  assumes "is_seq4 x y z w"
  shows "AppendRune (rune4 x y z w) = [char_of x, char_of y, char_of z, char_of w]"
proof -
  obtain a b c d where x: "x = 240 + a" and y: "y = 128 + b" and z: "z = 128 + c"
    and w: "w = 128 + d"
    and a: "a \<le> 4" and b: "b < 64" and c: "c < 64" and d: "d < 64"
    and lo: "a = 0 \<longrightarrow> 16 \<le> b" and hi: "a = 4 \<longrightarrow> b \<le> 15"
    using assms
    by (auto simp: is_seq4_def cont_def intro: that [of "x - 240" "y - 128" "z - 128" "w - 128"])
  define r where "r = a * 262144 + b * 4096 + c * 64 + d"
  have r: "rune4 x y z w = r"
    by (simp add: rune4_def x y z w r_def)
  have e1: "r = a * 262144 + (b * 4096 + c * 64 + d)"
    and e2: "r = (a * 64 + b) * 4096 + (c * 64 + d)"
    and e3: "r = (a * 4096 + b * 64 + c) * 64 + d"
    and e4: "a * 4096 + b * 64 + c = (a * 64 + b) * 64 + c"
    by (simp_all add: r_def)
  have bcd: "b * 4096 + c * 64 + d < 262144" and cd: "c * 64 + d < 4096"
    using b c d by auto
  have d1: "r div 262144 = a"
    by (subst e1) (rule divmod_base(1) [OF bcd])
  have d2: "r div 4096 = a * 64 + b"
    by (subst e2) (rule divmod_base(1) [OF cd])
  have d3: "r div 64 = a * 4096 + b * 64 + c"
    by (subst e3) (rule divmod_base(1) [OF d])
  have d4: "(a * 64 + b) mod 64 = b"
    by (rule divmod_base(2) [OF b])
  have d5: "(a * 4096 + b * 64 + c) mod 64 = c"
    by (subst e4) (rule divmod_base(2) [OF c])
  have d6: "r mod 64 = d"
    by (subst e3) (rule divmod_base(2) [OF d])
  have "65536 \<le> r" "r \<le> 1114111"
    using a b c d lo hi by (auto simp: r_def)
  then have rng: "\<not> r < 128" "\<not> r < 2048"
    "\<not> (r > 1114111 \<or> (55296 \<le> r \<and> r \<le> 57343))" "\<not> r < 65536"
    by auto
  show ?thesis
    unfolding AppendRune_def r
    by (simp only: rng if_False d1 d2 d3 d4 d5 d6) (simp only: x y z w)
qed

lemma utf8_bytes_Cons: "utf8_bytes (r # rs) = AppendRune r @ utf8_bytes rs"
  by (simp add: utf8_bytes_def)

lemma ToValidUTF8_id:
  "ValidString s \<Longrightarrow> ToValidUTF8 s = s"
  unfolding ToValidUTF8_def
proof (induction s rule: ValidString.induct)
  case 1
  then show ?case by (simp add: utf8_bytes_def)
next
  case (2 a s)
  show ?case
  proof (cases "(of_char a :: nat) < 128")
    case True
    with 2 show ?thesis
      by (simp add: utf8_bytes_Cons AppendRune_ascii)
  next
    case False
    note na = False
    show ?thesis
    proof (cases s)
      case Nil
      with 2 na show ?thesis by simp
    next
      case s: (Cons b s1)
      show ?thesis
      proof (cases "is_seq2 (of_char a) (of_char b)")
        case True
        with 2 na s show ?thesis
          by (simp add: utf8_bytes_Cons AppendRune_seq2)
      next
        case False
        note n2 = False
        show ?thesis
        proof (cases s1)
          case Nil
          with 2 na s n2 show ?thesis by simp
        next
          case s1: (Cons c s2)
          show ?thesis
          proof (cases "is_seq3 (of_char a) (of_char b) (of_char c)")
            case True
            with 2 na s n2 s1 show ?thesis
              by (simp add: utf8_bytes_Cons AppendRune_seq3)
          next
            case False
            note n3 = False
            show ?thesis
            proof (cases s2)
              case Nil
              with 2 na s n2 s1 n3 show ?thesis by simp
            next
              case s2: (Cons d s3)
              with 2 na s n2 s1 n3 show ?thesis
                by (simp add: utf8_bytes_Cons AppendRune_seq4)
            qed
          qed
        qed
      qed
    qed
  qed
qed

lemma key_is_fields:
  "key_is (utf8_runes ''Name'') ''Name''"
  "\<not> key_is (utf8_runes ''NotifText'') ''Name''"
  "key_is (utf8_runes ''NotifText'') ''NotifText''"
  "\<not> key_is (utf8_runes ''Phases'') ''Name''"
  "\<not> key_is (utf8_runes ''Phases'') ''NotifText''"
  "key_is (utf8_runes ''Phases'') ''Phases''"
  "\<not> key_is (utf8_runes ''MaxCycles'') ''Name''"
  "\<not> key_is (utf8_runes ''MaxCycles'') ''NotifText''"
  "\<not> key_is (utf8_runes ''MaxCycles'') ''Phases''"
  "key_is (utf8_runes ''MaxCycles'') ''MaxCycles''"
  "key_is (utf8_runes ''WorkDuration'') ''WorkDuration''"
  "\<not> key_is (utf8_runes ''BreakDuration'') ''WorkDuration''"
  "key_is (utf8_runes ''BreakDuration'') ''BreakDuration''"
  by (simp_all add: key_is_def fold_rune_def)

lemma unmarshal_int64_sint: "unmarshal_int64 (JNumber (sint w)) old = Inr w"
proof -
  have "- (2 ^ 63) \<le> sint w" "sint w < 2 ^ 63"
    using sint_ge [of w] sint_lt [of w] by simp_all
  then show ?thesis
    by (simp add: unmarshal_int64_def)
qed

lemma UnmarshalJSON_MarshalJSON: "UnmarshalJSON (MarshalJSON p) = Inr p"
  by (simp add: UnmarshalJSON_def MarshalJSON_def key_is_fields unmarshal_int64_sint
      del: utf8_runes.simps)

lemma unmarshal_phases_map: "unmarshal_phases (map MarshalJSON ps) = Inr ps"
  by (induction ps) (simp_all add: UnmarshalJSON_MarshalJSON)

lemma unmarshal_marshal_TimerConfig:
  "unmarshal_TimerConfig (marshal_TimerConfig c) = Inr (reloaded c)"
  by (simp add: unmarshal_TimerConfig_def marshal_TimerConfig_def key_is_fields
      unmarshal_string_def unmarshal_int64_sint unmarshal_phases_map reloaded_def ToValidUTF8_def
      del: utf8_runes.simps)

lemma unmarshal_list_map:
  "unmarshal_list (map marshal_TimerConfig cs) = Inr (map reloaded cs)"
  by (induction cs) (simp_all add: unmarshal_marshal_TimerConfig)

lemma Decode_Encode: "Decode (Encode cs) = Inr (map reloaded cs)"
  by (simp add: Decode_def Encode_def unmarshal_list_map)

lemma reloaded_valid:
  "ValidString (Name c) \<Longrightarrow> ValidString (NotifText c) \<Longrightarrow> reloaded c = c"
  by (simp add: reloaded_def ToValidUTF8_id)

lemma map_reloaded_valid:
  "list_all (\<lambda>c. ValidString (Name c) \<and> ValidString (NotifText c)) cs \<Longrightarrow> map reloaded cs = cs"
  by (induction cs) (simp_all add: reloaded_valid)

lemma TrimSpace_fixed:
  "TrimSpace ''5'' = ''5''" "TrimSpace ''1:30'' = ''1:30''" "TrimSpace ''bad'' = ''bad''"
  "TrimSpace ''1:2:3'' = ''1:2:3''" "TrimSpace ''153722868'' = ''153722868''"
  by (simp_all add: TrimSpace_def TrimRight_def is_space1_def is_space2_def is_space3_def)

lemma valid_integer_examples:
  "valid_integer ''1''" "integer_value ''1'' = 1"
  "valid_integer ''30''" "integer_value ''30'' = 30"
  "valid_integer ''5''" "integer_value ''5'' = 5"
  "\<not> valid_integer ''bad''"
  by (simp_all add: valid_integer_def integer_value_def unsigned_part_def decimal_value_def
      is_digit_def digit_val_def fits_int64_def)

lemma cmd_delete_lock_step:
  assumes "0 < num" and "num \<le> int (length (activeTimers (fst w)))"
    and "length (configs (fst w)) = length (activeTimers (fst w))"
  shows "\<exists>w'. cmd_delete num w = Inr w' \<and>
           activeTimers (fst w') =
             take (nat num - 1) (activeTimers (fst w)) @ drop (nat num) (activeTimers (fst w)) \<and>
           configs (fst w') =
             take (nat num - 1) (configs (fst w)) @ drop (nat num) (configs (fst w)) \<and>
           length (activeTimers (fst w')) = length (activeTimers (fst w)) - 1 \<and>
           length (configs (fst w')) = length (activeTimers (fst w')) \<and>
           (\<forall>j < length (activeTimers (fst w')).
              activeTimers (fst w') ! j =
                activeTimers (fst w) ! (if j < nat num - 1 then j else j + 1) \<and>
              configs (fst w') ! j =
                configs (fst w) ! (if j < nat num - 1 then j else j + 1)) \<and>
           (map config_of (activeTimers (fst w)) = configs (fst w) \<longrightarrow>
              map config_of (activeTimers (fst w')) = configs (fst w')) \<and>
           displayChan (fst w') = displayChan (fst w) \<and>
           snd w' = snd (saveTimerConfigs (configs (fst w')) (snd w))"
proof -
  let ?ts = "activeTimers (fst w)" and ?cs = "configs (fst w)"
  let ?ts' = "take (nat num - 1) ?ts @ drop (nat num) ?ts"
  let ?cs' = "take (nat num - 1) ?cs @ drop (nat num) ?cs"
  let ?w' = "(fst w\<lparr>activeTimers := ?ts', configs := ?cs'\<rparr>, snd (saveTimerConfigs ?cs' (snd w)))"
  have n: "nat (num - 1) = nat num - 1" by simp
  have pos: "0 < nat num" and le: "nat num \<le> length ?ts" and le': "nat num \<le> length ?cs"
    using assms by auto
  have d: "cmd_delete num w = Inr ?w'"
    using assms by (simp add: cmd_delete_def Let_def n)
  have lt: "length ?ts' = length ?ts - 1" and lc: "length ?cs' = length ?ts - 1"
    using length_cut [OF pos le] length_cut [OF pos le'] assms(3) by simp_all
  have nth: "?ts' ! j = ?ts ! (if j < nat num - 1 then j else j + 1) \<and>
             ?cs' ! j = ?cs ! (if j < nat num - 1 then j else j + 1)"
    if "j < length ?ts - 1" for j
    using nth_cut [OF pos le that] nth_cut [OF pos le', of j] that assms(3) by simp
  have cf: "map config_of ?ts = ?cs \<longrightarrow> map config_of ?ts' = ?cs'"
  proof
    assume "map config_of ?ts = ?cs"
    then have "?cs' = take (nat num - 1) (map config_of ?ts) @ drop (nat num) (map config_of ?ts)"
      by simp
    then show "map config_of ?ts' = ?cs'"
      by (simp only: map_append take_map drop_map)
  qed
  have fr: "activeTimers (fst ?w') = ?ts'" "configs (fst ?w') = ?cs'"
    "displayChan (fst ?w') = displayChan (fst w)"
    "snd ?w' = snd (saveTimerConfigs (configs (fst ?w')) (snd w))"
    by simp_all
  show ?thesis
  proof (intro exI [of _ ?w'] conjI allI impI)
    show "cmd_delete num w = Inr ?w'" by (rule d)
    show "activeTimers (fst ?w') = ?ts'" "configs (fst ?w') = ?cs'"
      "displayChan (fst ?w') = displayChan (fst w)"
      "snd ?w' = snd (saveTimerConfigs (configs (fst ?w')) (snd w))"
      by (rule fr)+
    show "length (activeTimers (fst ?w')) = length ?ts - 1"
      using lt by (simp only: fr)
    show "length (configs (fst ?w')) = length (activeTimers (fst ?w'))"
      using lt lc by (simp only: fr)
    show "map config_of (activeTimers (fst ?w')) = configs (fst ?w')"
      if "map config_of ?ts = ?cs"
      using cf that by (simp only: fr)
    show "activeTimers (fst ?w') ! j = ?ts ! (if j < nat num - 1 then j else j + 1)"
      if "j < length (activeTimers (fst ?w'))" for j
      using nth [of j] that lt by (simp only: fr)
    show "configs (fst ?w') ! j = ?cs ! (if j < nat num - 1 then j else j + 1)"
      if "j < length (activeTimers (fst ?w'))" for j
      using nth [of j] that lt by (simp only: fr)
  qed
qed

section \<open>The claims\<close>

text \<open>
  C1 (as amended). An unpaused timer with the single phase (work 2 s, break 1 s) and
  unlimited cycles that is Working with 2 s remaining: two calls of \<open>update\<close> only count
  the 2 s down, and the timer is still Working, with 0 s remaining; the third call makes
  it OnBreak with 1 s remaining. From there two further calls (one counting down, one
  switching) make it Working again with the cycle count incremented and 2 s remaining.
\<close>

theorem work_2s_break_1s_cycle:
  assumes "\<not> isPaused t"
    and "phases t = [\<lparr>WorkDuration = 2 * Second, BreakDuration = Second\<rparr>]"
    and "maxCycles t = - 1"
    and "isWork (state t)"
    and "currentTime (state t) = 2 * Second"
    and "currentPhase (state t) = 0"
  shows "update_times 2 t = Inr (t\<lparr>state := (state t)\<lparr>currentTime := 0\<rparr>\<rparr>, [False, False], []) \<and>
         update_times 3 t =
           Inr (t\<lparr>state := (state t)\<lparr>isWork := False, currentTime := Second\<rparr>\<rparr>,
                [False, False, False],
                [(name (state t), ''Break: '' @ notifText (state t))]) \<and>
         update_times 2 (t\<lparr>state := (state t)\<lparr>isWork := False, currentTime := Second\<rparr>\<rparr>) =
           Inr (t\<lparr>state := (state t)\<lparr>isWork := True, currentTime := 2 * Second,
                                       cycles := cycles (state t) + 1\<rparr>\<rparr>,
                [False, False],
                [(name (state t), notifText (state t))])"
  using assms
  by (simp add: numeral_3_eq_3 numeral_2_eq_2 update_def index_def notify_def Let_def sint_Second)

theorem work_2s_break_1s_cycle_witness:
  "update_times 3
     \<lparr>state = \<lparr>isWork = True, currentTime = 2 * Second, cycles = 1, currentPhase = 0,
               name = ''tea'', notifText = ''brew''\<rparr>,
      phases = [\<lparr>WorkDuration = 2 * Second, BreakDuration = Second\<rparr>],
      maxCycles = - 1, isPaused = False\<rparr> =
   Inr (\<lparr>state = \<lparr>isWork = False, currentTime = Second, cycles = 1, currentPhase = 0,
                  name = ''tea'', notifText = ''brew''\<rparr>,
         phases = [\<lparr>WorkDuration = 2 * Second, BreakDuration = Second\<rparr>],
         maxCycles = - 1, isPaused = False\<rparr>,
        [False, False, False], [(''tea'', ''Break: brew'')]) \<and>
   update_times 2
     \<lparr>state = \<lparr>isWork = False, currentTime = Second, cycles = 1, currentPhase = 0,
               name = ''tea'', notifText = ''brew''\<rparr>,
      phases = [\<lparr>WorkDuration = 2 * Second, BreakDuration = Second\<rparr>],
      maxCycles = - 1, isPaused = False\<rparr> =
   Inr (\<lparr>state = \<lparr>isWork = True, currentTime = 2 * Second, cycles = 2, currentPhase = 0,
                  name = ''tea'', notifText = ''brew''\<rparr>,
         phases = [\<lparr>WorkDuration = 2 * Second, BreakDuration = Second\<rparr>],
         maxCycles = - 1, isPaused = False\<rparr>,
        [False, False], [(''tea'', ''brew'')])"
  using work_2s_break_1s_cycle
    [of "\<lparr>state = \<lparr>isWork = True, currentTime = 2 * Second, cycles = 1, currentPhase = 0,
                    name = ''tea'', notifText = ''brew''\<rparr>,
           phases = [\<lparr>WorkDuration = 2 * Second, BreakDuration = Second\<rparr>],
           maxCycles = - 1, isPaused = False\<rparr>"]
  by (simp add: sint_Second)

text \<open>
  C1 as stated fails: after two calls the timer above is not OnBreak with 1 s remaining,
  it is Working with 0 s remaining.
\<close>

theorem two_updates_leave_timer_working:
  "update_times 2
     \<lparr>state = \<lparr>isWork = True, currentTime = 2 * Second, cycles = 1, currentPhase = 0,
               name = ''tea'', notifText = ''brew''\<rparr>,
      phases = [\<lparr>WorkDuration = 2 * Second, BreakDuration = Second\<rparr>],
      maxCycles = - 1, isPaused = False\<rparr> =
   Inr (\<lparr>state = \<lparr>isWork = True, currentTime = 0, cycles = 1, currentPhase = 0,
                  name = ''tea'', notifText = ''brew''\<rparr>,
         phases = [\<lparr>WorkDuration = 2 * Second, BreakDuration = Second\<rparr>],
         maxCycles = - 1, isPaused = False\<rparr>,
        [False, False], [])"
  by (simp add: numeral_2_eq_2 update_def index_def notify_def Let_def sint_Second)

text \<open>
  C7. On a paused timer \<open>update\<close> reports "not completed", sends no notification and
  leaves the whole timer as it is (so \<open>remaining\<close>, \<open>isWork\<close>, the cycle count and the
  phase index), however often it is called and whatever the rest of the timer's state.
\<close>

theorem paused_update_is_noop:
  assumes "isPaused t"
  shows "update t = Inr (t, False, []) \<and> update_times n t = Inr (t, replicate n False, [])"
proof
  show u: "update t = Inr (t, False, [])"
    using assms by (rule update_paused)
  show "update_times n t = Inr (t, replicate n False, [])"
    by (induction n) (simp_all add: u)
qed

theorem paused_update_is_noop_witness:
  "isPaused \<lparr>state = \<lparr>isWork = False, currentTime = 0, cycles = 7, currentPhase = 5,
                      name = ''tea'', notifText = ''brew''\<rparr>,
             phases = [], maxCycles = 3, isPaused = True\<rparr> \<and>
   update_times 3 \<lparr>state = \<lparr>isWork = False, currentTime = 0, cycles = 7, currentPhase = 5,
                      name = ''tea'', notifText = ''brew''\<rparr>,
             phases = [], maxCycles = 3, isPaused = True\<rparr> =
   Inr (\<lparr>state = \<lparr>isWork = False, currentTime = 0, cycles = 7, currentPhase = 5,
                      name = ''tea'', notifText = ''brew''\<rparr>,
             phases = [], maxCycles = 3, isPaused = True\<rparr>, [False, False, False], [])"
  using paused_update_is_noop
    [of "\<lparr>state = \<lparr>isWork = False, currentTime = 0, cycles = 7, currentPhase = 5,
                      name = ''tea'', notifText = ''brew''\<rparr>,
             phases = [], maxCycles = 3, isPaused = True\<rparr>" 3]
  by (simp add: numeral_3_eq_3)

text \<open>
  C2. An unpaused timer with \<open>maxCycles = 1\<close> and exactly one phase that is OnBreak with
  nothing remaining (in its first cycle, at phase 0): \<open>update\<close> increments the cycle count
  to 2, advances the phase index past the last phase and reports completion, and the
  tick removes the timer from the active list: alone in the list it leaves the list
  empty, and among others the list after the tick is what the tick keeps of the timers
  before it followed by what it keeps of those after it.
\<close>

theorem bounded_timer_completes_and_is_removed:
  assumes "\<not> isPaused t"
    and "maxCycles t = 1"
    and "length (phases t) = 1"
    and "\<not> isWork (state t)"
    and "currentTime (state t) = 0"
    and "cycles (state t) = 1"
    and "currentPhase (state t) = 0"
  shows "update t =
           Inr (t\<lparr>state := (state t)\<lparr>cycles := 2, currentPhase := 1\<rparr>\<rparr>, True,
                [(name (state t), ''All phases completed: '' @ notifText (state t))]) \<and>
         tick (tm\<lparr>activeTimers := [t]\<rparr>) =
           Inr (tm\<lparr>activeTimers := [], displayChan := try_send (displayChan tm) True\<rparr>,
                [(name (state t), ''All phases completed: '' @ notifText (state t))]) \<and>
         (\<forall>pre post tm' ns.
            tick (tm\<lparr>activeTimers := pre @ t # post\<rparr>) = Inr (tm', ns) \<longrightarrow>
            activeTimers tm' = surviving pre @ surviving post)"
proof -
  have u: "update t =
           Inr (t\<lparr>state := (state t)\<lparr>cycles := 2, currentPhase := 1\<rparr>\<rparr>, True,
                [(name (state t), ''All phases completed: '' @ notifText (state t))])"
    using assms by (simp add: update_def index_def notify_def Let_def)
  have one: "tick (tm\<lparr>activeTimers := [t]\<rparr>) =
           Inr (tm\<lparr>activeTimers := [], displayChan := try_send (displayChan tm) True\<rparr>,
                [(name (state t), ''All phases completed: '' @ notifText (state t))])"
    by (simp add: tick_def u)
  have many: "activeTimers tm' = surviving pre @ surviving post"
    if "tick (tm\<lparr>activeTimers := pre @ t # post\<rparr>) = Inr (tm', ns)" for pre post tm' ns
  proof -
    have "activeTimers tm' = surviving (pre @ t # post)"
      using tick_activeTimers(1) [OF that] by simp
    also have "\<dots> = surviving pre @ surviving [t] @ surviving post"
      by (simp add: surviving_def)
    finally show ?thesis
      by (simp add: surviving_completed [OF u])
  qed
  from u one many show ?thesis by blast
qed


theorem bounded_timer_completes_and_is_removed_witness:
  "update \<lparr>state = \<lparr>isWork = False, currentTime = 0, cycles = 1, currentPhase = 0,
                      name = ''tea'', notifText = ''brew''\<rparr>,
             phases = [\<lparr>WorkDuration = 2 * Second, BreakDuration = Second\<rparr>],
             maxCycles = 1, isPaused = False\<rparr> =
     Inr (\<lparr>state = \<lparr>isWork = False, currentTime = 0, cycles = 2, currentPhase = 1,
                    name = ''tea'', notifText = ''brew''\<rparr>,
           phases = [\<lparr>WorkDuration = 2 * Second, BreakDuration = Second\<rparr>],
           maxCycles = 1, isPaused = False\<rparr>,
          True, [(''tea'', ''All phases completed: brew'')]) \<and>
   tick (NewTimerManager\<lparr>activeTimers :=
           [\<lparr>state = \<lparr>isWork = False, currentTime = 0, cycles = 1, currentPhase = 0,
                      name = ''tea'', notifText = ''brew''\<rparr>,
             phases = [\<lparr>WorkDuration = 2 * Second, BreakDuration = Second\<rparr>],
             maxCycles = 1, isPaused = False\<rparr>]\<rparr>) =
     Inr (\<lparr>activeTimers = [], configs = [],
           displayChan = \<lparr>chan_cap = 1, chan_buf = [True]\<rparr>\<rparr>,
          [(''tea'', ''All phases completed: brew'')])"
  using bounded_timer_completes_and_is_removed
    [of "\<lparr>state = \<lparr>isWork = False, currentTime = 0, cycles = 1, currentPhase = 0,
                    name = ''tea'', notifText = ''brew''\<rparr>,
           phases = [\<lparr>WorkDuration = 2 * Second, BreakDuration = Second\<rparr>],
           maxCycles = 1, isPaused = False\<rparr>" NewTimerManager]
  by (simp add: NewTimerManager_def make_chan_def try_send_def)

text \<open>
  C3 (as amended). A timer whose phase index is within its phases (so its phase list is
  not empty; Go bounds the length of a slice by the largest \<open>int\<close>): \<open>update\<close> indexes
  the phases in bounds, and a call that does not report completion leaves the phase
  index within the phases. The call that reports completion leaves the phase index
  equal to the number of phases; the tick drops that timer. Every timer in the active
  list of the running program has its phase index within its phases: after start-up
  and after every tick, display and command.
\<close>

theorem phase_index_invariant:
  "(phase_index_ok t \<longrightarrow> length (phases t) < 2 ^ 63 \<longrightarrow>
      (\<exists>t' completed ns.
         update t = Inr (t', completed, ns) \<and>
         (if completed then sint (currentPhase (state t')) = int (length (phases t'))
          else phase_index_ok t'))) \<and>
   (reachable w \<longrightarrow> timers_index_ok (fst w))"
proof (intro conjI impI)
  assume ok: "phase_index_ok t" and len: "length (phases t) < 2 ^ 63"
  from update_no_panic [OF ok len] obtain t' c ns where u: "update t = Inr (t', c, ns)"
    by blast
  show "\<exists>t' completed ns.
         update t = Inr (t', completed, ns) \<and>
         (if completed then sint (currentPhase (state t')) = int (length (phases t'))
          else phase_index_ok t')"
  proof (cases c)
    case True
    with u ok show ?thesis
      using update_completed_index [of t t' ns] by auto
  next
    case False
    with u ok show ?thesis
      using update_keeps_index_ok [of t t' ns] by auto
  qed
next
  assume "reachable w"
  then show "timers_index_ok (fst w)" by (rule reachable_index_ok)
qed

theorem phase_index_invariant_witness:
  "phase_index_ok
     \<lparr>state = \<lparr>isWork = False, currentTime = 0, cycles = 1, currentPhase = 0,
               name = ''tea'', notifText = ''brew''\<rparr>,
      phases = [\<lparr>WorkDuration = 2 * Second, BreakDuration = Second\<rparr>,
                \<lparr>WorkDuration = Second, BreakDuration = Second\<rparr>],
      maxCycles = 1, isPaused = False\<rparr> \<and>
   (\<exists>t' completed ns.
      update
        \<lparr>state = \<lparr>isWork = False, currentTime = 0, cycles = 1, currentPhase = 0,
               name = ''tea'', notifText = ''brew''\<rparr>,
      phases = [\<lparr>WorkDuration = 2 * Second, BreakDuration = Second\<rparr>,
                \<lparr>WorkDuration = Second, BreakDuration = Second\<rparr>],
      maxCycles = 1, isPaused = False\<rparr> = Inr (t', completed, ns) \<and>
      (if completed then sint (currentPhase (state t')) = int (length (phases t'))
       else phase_index_ok t')) \<and>
   reachable
     (\<lparr>activeTimers =
           [\<lparr>state = \<lparr>isWork = True, currentTime = 0, cycles = 1, currentPhase = 0,
                      name = [], notifText = []\<rparr>,
             phases = [\<lparr>WorkDuration = 0, BreakDuration = 0\<rparr>],
             maxCycles = 0, isPaused = False\<rparr>],
         configs = [\<lparr>Name = [], NotifText = [],
                     Phases = [\<lparr>WorkDuration = 0, BreakDuration = 0\<rparr>], MaxCycles = 0\<rparr>],
         displayChan = \<lparr>chan_cap = 1, chan_buf = []\<rparr>\<rparr>,
        \<lparr>configFile = Some (Document (JArray [JObject [(utf8_runes ''Phases'', JArray [JNull])]])),
           create_refused = False, open_refused = False\<rparr>) \<and>
   timers_index_ok
     (fst (\<lparr>activeTimers =
           [\<lparr>state = \<lparr>isWork = True, currentTime = 0, cycles = 1, currentPhase = 0,
                      name = [], notifText = []\<rparr>,
             phases = [\<lparr>WorkDuration = 0, BreakDuration = 0\<rparr>],
             maxCycles = 0, isPaused = False\<rparr>],
         configs = [\<lparr>Name = [], NotifText = [],
                     Phases = [\<lparr>WorkDuration = 0, BreakDuration = 0\<rparr>], MaxCycles = 0\<rparr>],
         displayChan = \<lparr>chan_cap = 1, chan_buf = []\<rparr>\<rparr>,
        \<lparr>configFile = Some (Document (JArray [JObject [(utf8_runes ''Phases'', JArray [JNull])]])),
           create_refused = False, open_refused = False\<rparr>))"
proof -
  have r: "reachable
     (\<lparr>activeTimers =
           [\<lparr>state = \<lparr>isWork = True, currentTime = 0, cycles = 1, currentPhase = 0,
                      name = [], notifText = []\<rparr>,
             phases = [\<lparr>WorkDuration = 0, BreakDuration = 0\<rparr>],
             maxCycles = 0, isPaused = False\<rparr>],
         configs = [\<lparr>Name = [], NotifText = [],
                     Phases = [\<lparr>WorkDuration = 0, BreakDuration = 0\<rparr>], MaxCycles = 0\<rparr>],
         displayChan = \<lparr>chan_cap = 1, chan_buf = []\<rparr>\<rparr>,
        \<lparr>configFile = Some (Document (JArray [JObject [(utf8_runes ''Phases'', JArray [JNull])]])),
           create_refused = False, open_refused = False\<rparr>)"
    by (rule reachable_init [OF main_init_example])
  have p: "phase_index_ok
     \<lparr>state = \<lparr>isWork = False, currentTime = 0, cycles = 1, currentPhase = 0,
               name = ''tea'', notifText = ''brew''\<rparr>,
      phases = [\<lparr>WorkDuration = 2 * Second, BreakDuration = Second\<rparr>,
                \<lparr>WorkDuration = Second, BreakDuration = Second\<rparr>],
      maxCycles = 1, isPaused = False\<rparr>"
    by (simp add: phase_index_ok_def)
  show ?thesis
    using r p
      phase_index_invariant
        [of "\<lparr>state = \<lparr>isWork = False, currentTime = 0, cycles = 1, currentPhase = 0,
               name = ''tea'', notifText = ''brew''\<rparr>,
      phases = [\<lparr>WorkDuration = 2 * Second, BreakDuration = Second\<rparr>,
                \<lparr>WorkDuration = Second, BreakDuration = Second\<rparr>],
      maxCycles = 1, isPaused = False\<rparr>"
            "(\<lparr>activeTimers =
           [\<lparr>state = \<lparr>isWork = True, currentTime = 0, cycles = 1, currentPhase = 0,
                      name = [], notifText = []\<rparr>,
             phases = [\<lparr>WorkDuration = 0, BreakDuration = 0\<rparr>],
             maxCycles = 0, isPaused = False\<rparr>],
         configs = [\<lparr>Name = [], NotifText = [],
                     Phases = [\<lparr>WorkDuration = 0, BreakDuration = 0\<rparr>], MaxCycles = 0\<rparr>],
         displayChan = \<lparr>chan_cap = 1, chan_buf = []\<rparr>\<rparr>,
        \<lparr>configFile = Some (Document (JArray [JObject [(utf8_runes ''Phases'', JArray [JNull])]])),
           create_refused = False, open_refused = False\<rparr>)"]
    by simp
qed

text \<open>
  C3 as stated fails on the call that reports completion: the invariant holds before
  it and not after it (one phase, phase index 1).
\<close>

theorem completing_update_breaks_phase_index:
  "phase_index_ok
     \<lparr>state = \<lparr>isWork = False, currentTime = 0, cycles = 1, currentPhase = 0,
               name = ''tea'', notifText = ''brew''\<rparr>,
      phases = [\<lparr>WorkDuration = 2 * Second, BreakDuration = Second\<rparr>],
      maxCycles = 1, isPaused = False\<rparr> \<and>
   update
     \<lparr>state = \<lparr>isWork = False, currentTime = 0, cycles = 1, currentPhase = 0,
               name = ''tea'', notifText = ''brew''\<rparr>,
      phases = [\<lparr>WorkDuration = 2 * Second, BreakDuration = Second\<rparr>],
      maxCycles = 1, isPaused = False\<rparr> =
   Inr (\<lparr>state = \<lparr>isWork = False, currentTime = 0, cycles = 2, currentPhase = 1,
                  name = ''tea'', notifText = ''brew''\<rparr>,
         phases = [\<lparr>WorkDuration = 2 * Second, BreakDuration = Second\<rparr>],
         maxCycles = 1, isPaused = False\<rparr>,
        True, [(''tea'', ''All phases completed: brew'')]) \<and>
   \<not> phase_index_ok
     \<lparr>state = \<lparr>isWork = False, currentTime = 0, cycles = 2, currentPhase = 1,
               name = ''tea'', notifText = ''brew''\<rparr>,
      phases = [\<lparr>WorkDuration = 2 * Second, BreakDuration = Second\<rparr>],
      maxCycles = 1, isPaused = False\<rparr>"
  by (simp add: phase_index_ok_def update_def index_def notify_def Let_def)

text \<open>
  C8. For a valid 1-based number, \<open>r\<close> sets the remaining time of that timer to the work
  duration of its first phase and changes nothing else: the other fields of the timer
  (\<open>isWork\<close>, cycle count, phase index, paused flag, phases), the other timers, the
  configurations and the mailbox are as before; the file is not an argument at all.
\<close>

theorem reset_restores_first_work_duration:
  assumes "0 < num" and "num \<le> int (length (activeTimers tm))"
    and "phases (activeTimers tm ! nat (num - 1)) \<noteq> []"
  shows "\<exists>tm'. cmd_reset num tm = Inr tm' \<and>
           configs tm' = configs tm \<and> displayChan tm' = displayChan tm \<and>
           length (activeTimers tm') = length (activeTimers tm) \<and>
           (\<forall>j < length (activeTimers tm).
              activeTimers tm' ! j =
                (if j = nat (num - 1) then
                   (activeTimers tm ! j)
                     \<lparr>state := (state (activeTimers tm ! j))
                        \<lparr>currentTime := WorkDuration (hd (phases (activeTimers tm ! j)))\<rparr>\<rparr>
                 else activeTimers tm ! j))"
proof -
  let ?t = "activeTimers tm ! nat (num - 1)"
  from assms(3) have i: "index (phases ?t) 0 = Inr (hd (phases ?t))"
    by (cases "phases ?t") (simp_all add: index_def)
  from assms(1,2) have "nat (num - 1) < length (activeTimers tm)" by auto
  with assms(1,2) i show ?thesis
    by (simp add: cmd_reset_def Let_def nth_list_update)
qed

theorem reset_restores_first_work_duration_witness:
  "(0::int) < 2 \<and>
   cmd_reset 2
     \<lparr>activeTimers =
        [\<lparr>state = \<lparr>isWork = True, currentTime = 5, cycles = 1, currentPhase = 0,
                   name = ''a'', notifText = ''x''\<rparr>,
          phases = [\<lparr>WorkDuration = Minute, BreakDuration = Second\<rparr>],
          maxCycles = - 1, isPaused = False\<rparr>,
         \<lparr>state = \<lparr>isWork = False, currentTime = 7, cycles = 3, currentPhase = 1,
                   name = ''b'', notifText = ''y''\<rparr>,
          phases = [\<lparr>WorkDuration = Minute, BreakDuration = Second\<rparr>,
                    \<lparr>WorkDuration = Second, BreakDuration = Second\<rparr>],
          maxCycles = 4, isPaused = True\<rparr>],
      configs = [], displayChan = \<lparr>chan_cap = 1, chan_buf = [True]\<rparr>\<rparr> =
   Inr \<lparr>activeTimers =
        [\<lparr>state = \<lparr>isWork = True, currentTime = 5, cycles = 1, currentPhase = 0,
                   name = ''a'', notifText = ''x''\<rparr>,
          phases = [\<lparr>WorkDuration = Minute, BreakDuration = Second\<rparr>],
          maxCycles = - 1, isPaused = False\<rparr>,
         \<lparr>state = \<lparr>isWork = False, currentTime = Minute, cycles = 3, currentPhase = 1,
                   name = ''b'', notifText = ''y''\<rparr>,
          phases = [\<lparr>WorkDuration = Minute, BreakDuration = Second\<rparr>,
                    \<lparr>WorkDuration = Second, BreakDuration = Second\<rparr>],
          maxCycles = 4, isPaused = True\<rparr>],
      configs = [], displayChan = \<lparr>chan_cap = 1, chan_buf = [True]\<rparr>\<rparr>"
  using reset_restores_first_work_duration
    [of 2 "\<lparr>activeTimers =
        [\<lparr>state = \<lparr>isWork = True, currentTime = 5, cycles = 1, currentPhase = 0,
                   name = ''a'', notifText = ''x''\<rparr>,
          phases = [\<lparr>WorkDuration = Minute, BreakDuration = Second\<rparr>],
          maxCycles = - 1, isPaused = False\<rparr>,
         \<lparr>state = \<lparr>isWork = False, currentTime = 7, cycles = 3, currentPhase = 1,
                   name = ''b'', notifText = ''y''\<rparr>,
          phases = [\<lparr>WorkDuration = Minute, BreakDuration = Second\<rparr>,
                    \<lparr>WorkDuration = Second, BreakDuration = Second\<rparr>],
          maxCycles = 4, isPaused = True\<rparr>],
      configs = [], displayChan = \<lparr>chan_cap = 1, chan_buf = [True]\<rparr>\<rparr>"]
  by (simp add: cmd_reset_def index_def Let_def)

text \<open>
  C9. In every state of the running program the mailbox of redraw requests holds at
  most one request. A tick over a non-empty list of timers queues a request if none is
  waiting and otherwise leaves the mailbox as it is (the send never waits), so any
  number \<open>n > 0\<close> of ticks without the display taking a request leaves exactly one
  request waiting.
\<close>

theorem redraw_requests_coalesce:
  assumes "reachable w"
  shows "pending (fst w) \<le> 1 \<and>
         (\<forall>tm' ns. tick (fst w) = Inr (tm', ns) \<longrightarrow> activeTimers (fst w) \<noteq> [] \<longrightarrow>
            chan_buf (displayChan tm') =
              (if pending (fst w) = 0 then [True] else chan_buf (displayChan (fst w)))) \<and>
         (\<forall>n tm'. 0 < n \<longrightarrow> activeTimers (fst w) \<noteq> [] \<longrightarrow> ticks n (fst w) = Inr tm' \<longrightarrow>
            pending tm' = 1)"
proof -
  from assms have ok: "mailbox_ok (fst w)" by (rule reachable_mailbox)
  then have "pending (fst w) \<le> 1" by (simp add: mailbox_ok_def)
  moreover have "chan_buf (displayChan tm') =
              (if pending (fst w) = 0 then [True] else chan_buf (displayChan (fst w)))"
    if "tick (fst w) = Inr (tm', ns)" "activeTimers (fst w) \<noteq> []" for tm' ns
    using tick_mailbox(3) [OF that(1) ok that(2)] .
  moreover have "pending tm' = 1"
    if "0 < n" "activeTimers (fst w) \<noteq> []" "ticks n (fst w) = Inr tm'" for n tm'
    using ticks_pending [OF that(3) ok that(1,2)] .
  ultimately show ?thesis by blast
qed

theorem redraw_requests_coalesce_witness:
  "reachable
     (\<lparr>activeTimers =
           [\<lparr>state = \<lparr>isWork = True, currentTime = 0, cycles = 1, currentPhase = 0,
                      name = [], notifText = []\<rparr>,
             phases = [\<lparr>WorkDuration = 0, BreakDuration = 0\<rparr>],
             maxCycles = 0, isPaused = False\<rparr>],
         configs = [\<lparr>Name = [], NotifText = [],
                     Phases = [\<lparr>WorkDuration = 0, BreakDuration = 0\<rparr>], MaxCycles = 0\<rparr>],
         displayChan = \<lparr>chan_cap = 1, chan_buf = []\<rparr>\<rparr>,
        \<lparr>configFile = Some (Document (JArray [JObject [(utf8_runes ''Phases'', JArray [JNull])]])),
           create_refused = False, open_refused = False\<rparr>) \<and>
   pending (fst (\<lparr>activeTimers =
           [\<lparr>state = \<lparr>isWork = True, currentTime = 0, cycles = 1, currentPhase = 0,
                      name = [], notifText = []\<rparr>,
             phases = [\<lparr>WorkDuration = 0, BreakDuration = 0\<rparr>],
             maxCycles = 0, isPaused = False\<rparr>],
         configs = [\<lparr>Name = [], NotifText = [],
                     Phases = [\<lparr>WorkDuration = 0, BreakDuration = 0\<rparr>], MaxCycles = 0\<rparr>],
         displayChan = \<lparr>chan_cap = 1, chan_buf = []\<rparr>\<rparr>,
        \<lparr>configFile = Some (Document (JArray [JObject [(utf8_runes ''Phases'', JArray [JNull])]])),
           create_refused = False, open_refused = False\<rparr>)) \<le> 1 \<and>
   ticks 3
     \<lparr>activeTimers =
           [\<lparr>state = \<lparr>isWork = True, currentTime = 0, cycles = 1, currentPhase = 0,
                      name = [], notifText = []\<rparr>,
             phases = [\<lparr>WorkDuration = 0, BreakDuration = 0\<rparr>],
             maxCycles = 0, isPaused = False\<rparr>],
         configs = [\<lparr>Name = [], NotifText = [],
                     Phases = [\<lparr>WorkDuration = 0, BreakDuration = 0\<rparr>], MaxCycles = 0\<rparr>],
         displayChan = \<lparr>chan_cap = 1, chan_buf = []\<rparr>\<rparr> =
   Inr \<lparr>activeTimers = [],
         configs = [\<lparr>Name = [], NotifText = [],
                     Phases = [\<lparr>WorkDuration = 0, BreakDuration = 0\<rparr>], MaxCycles = 0\<rparr>],
         displayChan = \<lparr>chan_cap = 1, chan_buf = [True]\<rparr>\<rparr> \<and>
   pending
     \<lparr>activeTimers = [],
         configs = [\<lparr>Name = [], NotifText = [],
                     Phases = [\<lparr>WorkDuration = 0, BreakDuration = 0\<rparr>], MaxCycles = 0\<rparr>],
         displayChan = \<lparr>chan_cap = 1, chan_buf = [True]\<rparr>\<rparr> = 1"
proof -
  have r: "reachable
     (\<lparr>activeTimers =
           [\<lparr>state = \<lparr>isWork = True, currentTime = 0, cycles = 1, currentPhase = 0,
                      name = [], notifText = []\<rparr>,
             phases = [\<lparr>WorkDuration = 0, BreakDuration = 0\<rparr>],
             maxCycles = 0, isPaused = False\<rparr>],
         configs = [\<lparr>Name = [], NotifText = [],
                     Phases = [\<lparr>WorkDuration = 0, BreakDuration = 0\<rparr>], MaxCycles = 0\<rparr>],
         displayChan = \<lparr>chan_cap = 1, chan_buf = []\<rparr>\<rparr>,
        \<lparr>configFile = Some (Document (JArray [JObject [(utf8_runes ''Phases'', JArray [JNull])]])),
           create_refused = False, open_refused = False\<rparr>)"
    by (rule reachable_init [OF main_init_example])
  have t: "ticks 3
     \<lparr>activeTimers =
           [\<lparr>state = \<lparr>isWork = True, currentTime = 0, cycles = 1, currentPhase = 0,
                      name = [], notifText = []\<rparr>,
             phases = [\<lparr>WorkDuration = 0, BreakDuration = 0\<rparr>],
             maxCycles = 0, isPaused = False\<rparr>],
         configs = [\<lparr>Name = [], NotifText = [],
                     Phases = [\<lparr>WorkDuration = 0, BreakDuration = 0\<rparr>], MaxCycles = 0\<rparr>],
         displayChan = \<lparr>chan_cap = 1, chan_buf = []\<rparr>\<rparr> =
   Inr \<lparr>activeTimers = [],
         configs = [\<lparr>Name = [], NotifText = [],
                     Phases = [\<lparr>WorkDuration = 0, BreakDuration = 0\<rparr>], MaxCycles = 0\<rparr>],
         displayChan = \<lparr>chan_cap = 1, chan_buf = [True]\<rparr>\<rparr>"
    by (simp add: numeral_3_eq_3 tick_def update_def index_def notify_def try_send_def Let_def)
  from redraw_requests_coalesce [OF r] r t show ?thesis
    by (simp add: pending_def)
qed

text \<open>
  C4. The claim: for every valid 1-based number, \<open>d\<close> removes the timer at that
  position and its configuration, and the two lists still have equal length. The
  program breaks it: the tick removes a completed timer from \<open>activeTimers\<close> only
  (lines 164-167), while \<open>d\<close> removes from both lists by position (lines 437-438). The
  run below starts from a file with the configurations of \<open>A\<close> (one cycle of 0 s work
  and 0 s break) and \<open>B\<close>. After two ticks \<open>A\<close> has completed and only \<open>B\<close> is
  active, with both configurations still listed; \<open>d 1\<close> then removes timer \<open>B\<close>
  together with the configuration of \<open>A\<close>, leaves no timer and one configuration, and
  saves the configuration of the deleted timer.
\<close>

theorem delete_after_completion_removes_other_config:
  "main_init
     \<lparr>configFile = Some (Document (Encode
        [\<lparr>Name = ''A'', NotifText = ''a'',
          Phases = [\<lparr>WorkDuration = 0, BreakDuration = 0\<rparr>], MaxCycles = 1\<rparr>,
         \<lparr>Name = ''B'', NotifText = ''b'',
          Phases = [\<lparr>WorkDuration = Minute, BreakDuration = Minute\<rparr>], MaxCycles = - 1\<rparr>])),
      create_refused = False, open_refused = False\<rparr> =
   Inr (\<lparr>activeTimers =
          [\<lparr>state = \<lparr>isWork = True, currentTime = 0, cycles = 1, currentPhase = 0,
                     name = ''A'', notifText = ''a''\<rparr>,
            phases = [\<lparr>WorkDuration = 0, BreakDuration = 0\<rparr>],
            maxCycles = 1, isPaused = False\<rparr>,
           \<lparr>state = \<lparr>isWork = True, currentTime = Minute, cycles = 1, currentPhase = 0,
                     name = ''B'', notifText = ''b''\<rparr>,
            phases = [\<lparr>WorkDuration = Minute, BreakDuration = Minute\<rparr>],
            maxCycles = - 1, isPaused = False\<rparr>],
         configs =
          [\<lparr>Name = ''A'', NotifText = ''a'',
            Phases = [\<lparr>WorkDuration = 0, BreakDuration = 0\<rparr>], MaxCycles = 1\<rparr>,
           \<lparr>Name = ''B'', NotifText = ''b'',
            Phases = [\<lparr>WorkDuration = Minute, BreakDuration = Minute\<rparr>], MaxCycles = - 1\<rparr>],
         displayChan = \<lparr>chan_cap = 1, chan_buf = []\<rparr>\<rparr>,
        \<lparr>configFile = Some (Document (Encode
           [\<lparr>Name = ''A'', NotifText = ''a'',
             Phases = [\<lparr>WorkDuration = 0, BreakDuration = 0\<rparr>], MaxCycles = 1\<rparr>,
            \<lparr>Name = ''B'', NotifText = ''b'',
             Phases = [\<lparr>WorkDuration = Minute, BreakDuration = Minute\<rparr>], MaxCycles = - 1\<rparr>])),
         create_refused = False, open_refused = False\<rparr>) \<and>
   ticks 2
     \<lparr>activeTimers =
          [\<lparr>state = \<lparr>isWork = True, currentTime = 0, cycles = 1, currentPhase = 0,
                     name = ''A'', notifText = ''a''\<rparr>,
            phases = [\<lparr>WorkDuration = 0, BreakDuration = 0\<rparr>],
            maxCycles = 1, isPaused = False\<rparr>,
           \<lparr>state = \<lparr>isWork = True, currentTime = Minute, cycles = 1, currentPhase = 0,
                     name = ''B'', notifText = ''b''\<rparr>,
            phases = [\<lparr>WorkDuration = Minute, BreakDuration = Minute\<rparr>],
            maxCycles = - 1, isPaused = False\<rparr>],
         configs =
          [\<lparr>Name = ''A'', NotifText = ''a'',
            Phases = [\<lparr>WorkDuration = 0, BreakDuration = 0\<rparr>], MaxCycles = 1\<rparr>,
           \<lparr>Name = ''B'', NotifText = ''b'',
            Phases = [\<lparr>WorkDuration = Minute, BreakDuration = Minute\<rparr>], MaxCycles = - 1\<rparr>],
         displayChan = \<lparr>chan_cap = 1, chan_buf = []\<rparr>\<rparr> =
   Inr \<lparr>activeTimers =
          [\<lparr>state = \<lparr>isWork = True, currentTime = Minute - 2 * Second, cycles = 1,
                     currentPhase = 0, name = ''B'', notifText = ''b''\<rparr>,
            phases = [\<lparr>WorkDuration = Minute, BreakDuration = Minute\<rparr>],
            maxCycles = - 1, isPaused = False\<rparr>],
         configs =
          [\<lparr>Name = ''A'', NotifText = ''a'',
            Phases = [\<lparr>WorkDuration = 0, BreakDuration = 0\<rparr>], MaxCycles = 1\<rparr>,
           \<lparr>Name = ''B'', NotifText = ''b'',
            Phases = [\<lparr>WorkDuration = Minute, BreakDuration = Minute\<rparr>], MaxCycles = - 1\<rparr>],
         displayChan = \<lparr>chan_cap = 1, chan_buf = [True]\<rparr>\<rparr> \<and>
   cmd_delete 1
     (\<lparr>activeTimers =
          [\<lparr>state = \<lparr>isWork = True, currentTime = Minute - 2 * Second, cycles = 1,
                     currentPhase = 0, name = ''B'', notifText = ''b''\<rparr>,
            phases = [\<lparr>WorkDuration = Minute, BreakDuration = Minute\<rparr>],
            maxCycles = - 1, isPaused = False\<rparr>],
         configs =
          [\<lparr>Name = ''A'', NotifText = ''a'',
            Phases = [\<lparr>WorkDuration = 0, BreakDuration = 0\<rparr>], MaxCycles = 1\<rparr>,
           \<lparr>Name = ''B'', NotifText = ''b'',
            Phases = [\<lparr>WorkDuration = Minute, BreakDuration = Minute\<rparr>], MaxCycles = - 1\<rparr>],
         displayChan = \<lparr>chan_cap = 1, chan_buf = [True]\<rparr>\<rparr>,
      \<lparr>configFile = Some (Document (Encode
           [\<lparr>Name = ''A'', NotifText = ''a'',
             Phases = [\<lparr>WorkDuration = 0, BreakDuration = 0\<rparr>], MaxCycles = 1\<rparr>,
            \<lparr>Name = ''B'', NotifText = ''b'',
             Phases = [\<lparr>WorkDuration = Minute, BreakDuration = Minute\<rparr>], MaxCycles = - 1\<rparr>])),
         create_refused = False, open_refused = False\<rparr>) =
   Inr (\<lparr>activeTimers = [],
         configs =
          [\<lparr>Name = ''B'', NotifText = ''b'',
            Phases = [\<lparr>WorkDuration = Minute, BreakDuration = Minute\<rparr>], MaxCycles = - 1\<rparr>],
         displayChan = \<lparr>chan_cap = 1, chan_buf = [True]\<rparr>\<rparr>,
        \<lparr>configFile = Some (Document (Encode
           [\<lparr>Name = ''B'', NotifText = ''b'',
             Phases = [\<lparr>WorkDuration = Minute, BreakDuration = Minute\<rparr>], MaxCycles = - 1\<rparr>])),
         create_refused = False, open_refused = False\<rparr>)"
proof (intro conjI)
  show "main_init
     \<lparr>configFile = Some (Document (Encode
        [\<lparr>Name = ''A'', NotifText = ''a'',
          Phases = [\<lparr>WorkDuration = 0, BreakDuration = 0\<rparr>], MaxCycles = 1\<rparr>,
         \<lparr>Name = ''B'', NotifText = ''b'',
          Phases = [\<lparr>WorkDuration = Minute, BreakDuration = Minute\<rparr>], MaxCycles = - 1\<rparr>])),
      create_refused = False, open_refused = False\<rparr> =
   Inr (\<lparr>activeTimers =
          [\<lparr>state = \<lparr>isWork = True, currentTime = 0, cycles = 1, currentPhase = 0,
                     name = ''A'', notifText = ''a''\<rparr>,
            phases = [\<lparr>WorkDuration = 0, BreakDuration = 0\<rparr>],
            maxCycles = 1, isPaused = False\<rparr>,
           \<lparr>state = \<lparr>isWork = True, currentTime = Minute, cycles = 1, currentPhase = 0,
                     name = ''B'', notifText = ''b''\<rparr>,
            phases = [\<lparr>WorkDuration = Minute, BreakDuration = Minute\<rparr>],
            maxCycles = - 1, isPaused = False\<rparr>],
         configs =
          [\<lparr>Name = ''A'', NotifText = ''a'',
            Phases = [\<lparr>WorkDuration = 0, BreakDuration = 0\<rparr>], MaxCycles = 1\<rparr>,
           \<lparr>Name = ''B'', NotifText = ''b'',
            Phases = [\<lparr>WorkDuration = Minute, BreakDuration = Minute\<rparr>], MaxCycles = - 1\<rparr>],
         displayChan = \<lparr>chan_cap = 1, chan_buf = []\<rparr>\<rparr>,
        \<lparr>configFile = Some (Document (Encode
           [\<lparr>Name = ''A'', NotifText = ''a'',
             Phases = [\<lparr>WorkDuration = 0, BreakDuration = 0\<rparr>], MaxCycles = 1\<rparr>,
            \<lparr>Name = ''B'', NotifText = ''b'',
             Phases = [\<lparr>WorkDuration = Minute, BreakDuration = Minute\<rparr>], MaxCycles = - 1\<rparr>])),
         create_refused = False, open_refused = False\<rparr>)"
    by (simp add: main_init_def loadTimerConfigs_def Decode_Encode reloaded_def ToValidUTF8_id
        timerFromConfig_def index_def NewTimerManager_def make_chan_def Let_def)
qed (simp_all add: numeral_2_eq_2 tick_def update_def index_def notify_def try_send_def Let_def
       cmd_delete_def saveTimerConfigs_def Minute_def Second_def)

text \<open>
  C10. A timer made for a configuration with at least one phase starts Working, with
  the work duration of the first phase remaining, in cycle 1, at phase 0 and not
  paused, and carries the name, text, phases and maximum of cycles of the
  configuration. This holds for \<open>timerFromConfig\<close>, for every timer that \<open>createTimer\<close>
  returns together with its configuration (which always has a phase), and for the
  timers that the start of the program makes from the stored configurations. And
  \<open>createTimer\<close> does return such a timer, with the phases read, exactly when the
  lines of the input complete the dialogue of the phases (otherwise it reads forever);
  in particular when a work line and a break line that parse are followed by an
  answer other than \<open>y\<close>.
\<close>

theorem new_timer_starts_fresh:
  "(Phases c \<noteq> [] \<longrightarrow> (\<exists>t. timerFromConfig c = Inr t \<and> fresh_timer c t)) \<and>
   (createTimer inp = Some r \<longrightarrow>
      (\<exists>t c' rest. r = Inr (t, c', rest) \<and> Phases c' \<noteq> [] \<and> fresh_timer c' t)) \<and>
   (main_init fs = Inr w \<longrightarrow> list_all2 fresh_timer (configs (fst w)) (activeTimers (fst w))) \<and>
   (phases_dialogue (drop 2 inp) [] = None \<longrightarrow> createTimer inp = None) \<and>
   (\<forall>phs rest.
      phases_dialogue (drop 2 inp) [] = Some (phs, rest) \<longrightarrow>
      (\<exists>t c'. createTimer inp = Some (Inr (t, c', snd (readLine rest))) \<and>
         Phases c' = phs \<and> Name c' = fst (readLine inp) \<and>
         NotifText c' = fst (readLine (snd (readLine inp))) \<and> fresh_timer c' t)) \<and>
   (\<forall>nm nt wl bl ans others wd bd.
      parseDuration (TrimSpace wl) = Inr wd \<longrightarrow>
      parseDuration (TrimSpace bl) = Inr bd \<longrightarrow>
      ToLower (TrimSpace ans) \<noteq> ''y'' \<longrightarrow>
      (\<exists>t c'. createTimer (nm # nt # wl # bl # ans # others) = Some (Inr (t, c', drop 1 others)) \<and>
         Phases c' = [\<lparr>WorkDuration = wd, BreakDuration = bd\<rparr>] \<and> fresh_timer c' t))"
  using timerFromConfig_fresh [of c] createTimer_result [of inp r] main_init_fresh [of fs w]
    createTimer_None [of inp] createTimer_Some [of inp] createTimer_one_phase
  by blast

theorem new_timer_starts_fresh_witness:
  "timerFromConfig
     \<lparr>Name = ''tea'', NotifText = ''brew'',
      Phases = [\<lparr>WorkDuration = 25 * Minute, BreakDuration = 5 * Minute\<rparr>,
                \<lparr>WorkDuration = Minute, BreakDuration = Second\<rparr>],
      MaxCycles = 3\<rparr> =
   Inr \<lparr>state = \<lparr>isWork = True, currentTime = 25 * Minute, cycles = 1, currentPhase = 0,
                 name = ''tea'', notifText = ''brew''\<rparr>,
        phases = [\<lparr>WorkDuration = 25 * Minute, BreakDuration = 5 * Minute\<rparr>,
                  \<lparr>WorkDuration = Minute, BreakDuration = Second\<rparr>],
        maxCycles = 3, isPaused = False\<rparr> \<and>
   createTimer [''tea'', ''brew'', ''25'', '' 5'', ''n'', ''3 '', ''p 1''] =
   Some (Inr (\<lparr>state = \<lparr>isWork = True, currentTime = 25 * Minute, cycles = 1, currentPhase = 0,
                         name = ''tea'', notifText = ''brew''\<rparr>,
                phases = [\<lparr>WorkDuration = 25 * Minute, BreakDuration = 5 * Minute\<rparr>],
                maxCycles = 3, isPaused = False\<rparr>,
               \<lparr>Name = ''tea'', NotifText = ''brew'',
                Phases = [\<lparr>WorkDuration = 25 * Minute, BreakDuration = 5 * Minute\<rparr>],
                MaxCycles = 3\<rparr>,
               [''p 1''])) \<and>
   fresh_timer
     \<lparr>Name = ''tea'', NotifText = ''brew'',
      Phases = [\<lparr>WorkDuration = 25 * Minute, BreakDuration = 5 * Minute\<rparr>],
      MaxCycles = 3\<rparr>
     \<lparr>state = \<lparr>isWork = True, currentTime = 25 * Minute, cycles = 1, currentPhase = 0,
               name = ''tea'', notifText = ''brew''\<rparr>,
      phases = [\<lparr>WorkDuration = 25 * Minute, BreakDuration = 5 * Minute\<rparr>],
      maxCycles = 3, isPaused = False\<rparr> \<and>
   createTimer [''tea'', ''brew'', ''25''] = None"
proof -
  let ?t = "\<lparr>state = \<lparr>isWork = True, currentTime = 25 * Minute, cycles = 1, currentPhase = 0,
               name = ''tea'', notifText = ''brew''\<rparr>,
      phases = [\<lparr>WorkDuration = 25 * Minute, BreakDuration = 5 * Minute\<rparr>],
      maxCycles = 3, isPaused = False\<rparr>"
  let ?c = "\<lparr>Name = ''tea'', NotifText = ''brew'',
      Phases = [\<lparr>WorkDuration = 25 * Minute, BreakDuration = 5 * Minute\<rparr>],
      MaxCycles = 3\<rparr>"
  let ?r = "Inr (?t, ?c, [''p 1'']) :: error + Timer \<times> TimerConfig \<times> string list"
  note th = new_timer_starts_fresh
    [of "\<lparr>Name = ''tea'', NotifText = ''brew'',
      Phases = [\<lparr>WorkDuration = 25 * Minute, BreakDuration = 5 * Minute\<rparr>,
                \<lparr>WorkDuration = Minute, BreakDuration = Second\<rparr>],
      MaxCycles = 3\<rparr>"
        "[''tea'', ''brew'', ''25'', '' 5'', ''n'', ''3 '', ''p 1'']" ?r]
  have a: "createTimer [''tea'', ''brew'', ''25'', '' 5'', ''n'', ''3 '', ''p 1''] = Some ?r"
    by (rule createTimer_example)
  with th obtain t c' rest where "?r = Inr (t, c', rest)" and "fresh_timer c' t"
    by blast
  then have f: "fresh_timer ?c ?t" by simp
  have n: "createTimer [''tea'', ''brew'', ''25''] = None"
    using new_timer_starts_fresh [where inp = "[''tea'', ''brew'', ''25'']"] by simp
  from a f n show ?thesis
    by (simp add: timerFromConfig_def index_def)
qed

text \<open>
  C5 (as amended). For a trimmed input: with a \<open>:\<close> in it, \<open>parseDuration\<close> succeeds
  exactly when the input is two fields around one \<open>:\<close> and each field is a valid
  integer (an optional sign and decimal digits, within 64 bits), and fails otherwise;
  without a \<open>:\<close>, it succeeds exactly when the whole input is a valid integer, and fails
  otherwise. The result is minutes times 60 plus seconds, in nanoseconds, as a 64-bit
  value that wraps around: it is that duration exactly whenever the number of
  nanoseconds fits 64 bits.
\<close>

theorem parseDuration_spec:
  assumes "TrimSpace input = input"
  shows "(Contains input CHR '':'' \<longrightarrow>
           (\<forall>d. parseDuration input = Inr d \<longleftrightarrow>
              (\<exists>mm ss. input = mm @ '':'' @ ss \<and> CHR '':'' \<notin> set mm \<and> CHR '':'' \<notin> set ss \<and>
                 valid_integer mm \<and> valid_integer ss \<and>
                 d = word_of_int (duration_ns (integer_value mm) (integer_value ss)) \<and>
                 (fits_int64 (duration_ns (integer_value mm) (integer_value ss)) \<longrightarrow>
                    sint d = duration_ns (integer_value mm) (integer_value ss))))) \<and>
         (\<not> Contains input CHR '':'' \<longrightarrow>
           (\<forall>d. parseDuration input = Inr d \<longleftrightarrow>
              valid_integer input \<and>
              d = word_of_int (duration_ns (integer_value input) 0) \<and>
              (fits_int64 (duration_ns (integer_value input) 0) \<longrightarrow>
                 sint d = duration_ns (integer_value input) 0)))"
proof (intro conjI impI allI)
  fix d
  assume c: "Contains input CHR '':''"
  show "parseDuration input = Inr d \<longleftrightarrow>
              (\<exists>mm ss. input = mm @ '':'' @ ss \<and> CHR '':'' \<notin> set mm \<and> CHR '':'' \<notin> set ss \<and>
                 valid_integer mm \<and> valid_integer ss \<and>
                 d = word_of_int (duration_ns (integer_value mm) (integer_value ss)) \<and>
                 (fits_int64 (duration_ns (integer_value mm) (integer_value ss)) \<longrightarrow>
                    sint d = duration_ns (integer_value mm) (integer_value ss)))"
    (is "?L \<longleftrightarrow> ?R")
  proof
    assume L: ?L
    with assms c have two: "length (Split input CHR '':'') = 2"
      by (auto simp: parseDuration_def Let_def split: if_splits)
    then obtain mm ss where i: "input = mm @ CHR '':'' # ss"
      and n: "CHR '':'' \<notin> set mm" "CHR '':'' \<notin> set ss"
      by (auto simp: Split_two_iff)
    then have sp: "Split input CHR '':'' = [mm, ss]"
      by (simp add: Split_two)
    from L assms c sp obtain m s where
      a: "Atoi mm = Inr m" "Atoi ss = Inr s" and d: "d = m * Minute + s * Second"
      by (auto simp: parseDuration_def Let_def split: sum.splits)
    from a have v: "valid_integer mm" "valid_integer ss"
      and w: "m = word_of_int (integer_value mm)" "s = word_of_int (integer_value ss)"
      by (simp_all add: Atoi_iff)
    from d w have d': "d = word_of_int (duration_ns (integer_value mm) (integer_value ss))"
      by (simp add: duration_word)
    have "fits_int64 (duration_ns (integer_value mm) (integer_value ss)) \<longrightarrow>
          sint d = duration_ns (integer_value mm) (integer_value ss)"
      using d' by (simp add: sint_word_of_int_fits)
    with i n v d' show ?R
      by (intro exI [of _ mm] exI [of _ ss]) simp
  next
    assume ?R
    then obtain mm ss where i: "input = mm @ CHR '':'' # ss"
      and n: "CHR '':'' \<notin> set mm" "CHR '':'' \<notin> set ss"
      and v: "valid_integer mm" "valid_integer ss"
      and d: "d = word_of_int (duration_ns (integer_value mm) (integer_value ss))"
      by auto
    from i n have sp: "Split input CHR '':'' = [mm, ss]"
      by (simp add: Split_two)
    from v have a: "Atoi mm = Inr (word_of_int (integer_value mm))"
      "Atoi ss = Inr (word_of_int (integer_value ss))"
      by (simp_all add: Atoi_iff)
    from assms c sp a d show ?L
      by (simp add: parseDuration_def Let_def duration_word)
  qed
next
  fix d
  assume c: "\<not> Contains input CHR '':''"
  have z: "(word_of_int m :: Duration) * Minute = word_of_int (duration_ns m 0)" for m
    using duration_word [of m 0] by simp
  have p: "parseDuration input = (case Atoi input of Inl e \<Rightarrow> Inl e | Inr m \<Rightarrow> Inr (m * Minute))"
    using assms c by (simp add: parseDuration_def Let_def)
  show "parseDuration input = Inr d \<longleftrightarrow>
              valid_integer input \<and>
              d = word_of_int (duration_ns (integer_value input) 0) \<and>
              (fits_int64 (duration_ns (integer_value input) 0) \<longrightarrow>
                 sint d = duration_ns (integer_value input) 0)"
    (is "?L \<longleftrightarrow> ?R")
  proof
    assume ?L
    with p obtain m where a: "Atoi input = Inr m" and d: "d = m * Minute"
      by (auto split: sum.splits)
    from a have v: "valid_integer input" and m: "m = word_of_int (integer_value input)"
      by (simp_all add: Atoi_iff)
    from d m have d': "d = word_of_int (duration_ns (integer_value input) 0)"
      by (simp add: z)
    then have "fits_int64 (duration_ns (integer_value input) 0) \<longrightarrow>
               sint d = duration_ns (integer_value input) 0"
      by (simp add: sint_word_of_int_fits)
    with v d' show ?R by simp
  next
    assume r: ?R
    then have "Atoi input = Inr (word_of_int (integer_value input))"
      by (simp add: Atoi_iff)
    with p r show ?L
      by (simp add: z)
  qed
qed

theorem parseDuration_spec_witness:
  "TrimSpace ''1:30'' = ''1:30'' \<and>
   parseDuration ''1:30'' = Inr (90 * Second) \<and>
   sint (90 * Second) = 90 * 1000000000 \<and>
   parseDuration ''5'' = Inr (5 * Minute) \<and>
   sint (5 * Minute) = 5 * 60 * 1000000000 \<and>
   parseDuration ''bad'' = Inl ErrSyntax \<and>
   parseDuration ''1:2:3'' = Inl InvalidFormat"
proof -
  have c: "Contains ''1:30'' CHR '':''" by (simp add: Contains_def)
  have "\<exists>mm ss. ''1:30'' = mm @ '':'' @ ss \<and> CHR '':'' \<notin> set mm \<and> CHR '':'' \<notin> set ss \<and>
          valid_integer mm \<and> valid_integer ss \<and>
          (word_of_int 90000000000 :: Duration) =
            word_of_int (duration_ns (integer_value mm) (integer_value ss)) \<and>
          (fits_int64 (duration_ns (integer_value mm) (integer_value ss)) \<longrightarrow>
             sint (word_of_int 90000000000 :: Duration) =
               duration_ns (integer_value mm) (integer_value ss))"
    by (intro exI [of _ "''1''"] exI [of _ "''30''"])
       (simp add: valid_integer_examples duration_ns_def)
  with parseDuration_spec [OF TrimSpace_fixed(2)] c
  have a: "parseDuration ''1:30'' = Inr (word_of_int 90000000000)"
    by blast
  have b: "parseDuration ''5'' = Inr (5 * Minute)"
    "parseDuration ''bad'' = Inl ErrSyntax"
    "parseDuration ''1:2:3'' = Inl InvalidFormat"
    by (simp_all add: parseDuration_def TrimSpace_fixed Contains_def Atoi_def ParseUint_def
        is_digit_def digit_val_def Let_def)
  from a b show ?thesis
    by (simp add: TrimSpace_fixed Second_def Minute_def)
qed

text \<open>
  C5 as stated fails where the nanoseconds leave 64 bits: \<open>153722868\<close> is a valid integer
  of minutes, and the result is not 153722868 minutes but a negative duration.
\<close>

theorem parseDuration_overflows:
  "TrimSpace ''153722868'' = ''153722868'' \<and>
   valid_integer ''153722868'' \<and>
   integer_value ''153722868'' = 153722868 \<and>
   parseDuration ''153722868'' = Inr 9223372080000000000 \<and>
   sint (9223372080000000000 :: Duration) = - 9223371993709551616 \<and>
   duration_ns 153722868 0 = 9223372080000000000"
  by (simp add: TrimSpace_fixed parseDuration_def Contains_def Atoi_def ParseUint_def
      is_digit_def digit_val_def Let_def Minute_def Second_def duration_ns_def
      valid_integer_def integer_value_def unsigned_part_def decimal_value_def fits_int64_def)

text \<open>
  C6 (as amended). When the file can be created and opened, saving a sequence of
  configurations and loading it again gives the same phases (every duration with all
  its 64 bits, through its integer number of nanoseconds) and the same maximum of
  cycles for each configuration, and the name and the notification text with every
  byte that is not well-formed UTF-8 replaced by U+FFFD: the sequence itself whenever
  all names and texts are valid UTF-8.
\<close>

theorem save_then_load:
  assumes "\<not> create_refused fs" and "\<not> open_refused fs"
  shows "\<exists>fs'. saveTimerConfigs cs fs = (None, fs') \<and>
           loadTimerConfigs fs' = Inr (map reloaded cs) \<and>
           map Phases (map reloaded cs) = map Phases cs \<and>
           map MaxCycles (map reloaded cs) = map MaxCycles cs \<and>
           (list_all (\<lambda>c. ValidString (Name c) \<and> ValidString (NotifText c)) cs \<longrightarrow>
              loadTimerConfigs fs' = Inr cs)"
proof -
  let ?fs' = "fs\<lparr>configFile := Some (Document (Encode cs))\<rparr>"
  have s: "saveTimerConfigs cs fs = (None, ?fs')"
    using assms by (simp add: saveTimerConfigs_def)
  have l: "loadTimerConfigs ?fs' = Inr (map reloaded cs)"
    using assms by (simp add: loadTimerConfigs_def Decode_Encode)
  have p: "map Phases (map reloaded cs) = map Phases cs"
    "map MaxCycles (map reloaded cs) = map MaxCycles cs"
    by (simp_all add: reloaded_def)
  have v: "loadTimerConfigs ?fs' = Inr cs"
    if "list_all (\<lambda>c. ValidString (Name c) \<and> ValidString (NotifText c)) cs"
    using l map_reloaded_valid [OF that] by simp
  from s l p v show ?thesis by blast
qed

theorem save_then_load_witness:
  "saveTimerConfigs
     [\<lparr>Name = ''tea'', NotifText = ''brew'',
       Phases = [\<lparr>WorkDuration = 25 * Minute, BreakDuration = - 1\<rparr>], MaxCycles = - 1\<rparr>]
     \<lparr>configFile = None, create_refused = False, open_refused = False\<rparr> =
   (None,
    \<lparr>configFile = Some (Document (Encode
       [\<lparr>Name = ''tea'', NotifText = ''brew'',
         Phases = [\<lparr>WorkDuration = 25 * Minute, BreakDuration = - 1\<rparr>], MaxCycles = - 1\<rparr>])),
     create_refused = False, open_refused = False\<rparr>) \<and>
   loadTimerConfigs
    \<lparr>configFile = Some (Document (Encode
       [\<lparr>Name = ''tea'', NotifText = ''brew'',
         Phases = [\<lparr>WorkDuration = 25 * Minute, BreakDuration = - 1\<rparr>], MaxCycles = - 1\<rparr>])),
     create_refused = False, open_refused = False\<rparr> =
   Inr [\<lparr>Name = ''tea'', NotifText = ''brew'',
         Phases = [\<lparr>WorkDuration = 25 * Minute, BreakDuration = - 1\<rparr>], MaxCycles = - 1\<rparr>]"
proof -
  let ?fs = "\<lparr>configFile = None, create_refused = False, open_refused = False\<rparr>"
  let ?cs = "[\<lparr>Name = ''tea'', NotifText = ''brew'',
           Phases = [\<lparr>WorkDuration = 25 * Minute, BreakDuration = - 1\<rparr>], MaxCycles = - 1\<rparr>]"
  have v: "list_all (\<lambda>c. ValidString (Name c) \<and> ValidString (NotifText c)) ?cs"
    by simp
  from save_then_load [of ?fs ?cs] obtain fs' where
    s: "saveTimerConfigs ?cs ?fs = (None, fs')" and
    l: "list_all (\<lambda>c. ValidString (Name c) \<and> ValidString (NotifText c)) ?cs \<longrightarrow>
        loadTimerConfigs fs' = Inr ?cs"
    by auto
  from s have "fs' = ?fs\<lparr>configFile := Some (Document (Encode ?cs))\<rparr>"
    by (simp add: saveTimerConfigs_def)
  with s l v show ?thesis
    by simp
qed

text \<open>
  C6 as stated fails for a name that is not valid UTF-8: the one byte \<open>0xFF\<close> is written
  as the rune U+FFFD and read back as the three bytes \<open>0xEF 0xBF 0xBD\<close>.
\<close>

theorem invalid_utf8_name_not_reproduced:
  "saveTimerConfigs
     [\<lparr>Name = [char_of (0xFF :: nat)], NotifText = ''brew'',
       Phases = [\<lparr>WorkDuration = Minute, BreakDuration = Second\<rparr>], MaxCycles = - 1\<rparr>]
     \<lparr>configFile = None, create_refused = False, open_refused = False\<rparr> =
   (None,
    \<lparr>configFile = Some (Document (JArray [JObject
       [(utf8_runes ''Name'', JString [0xFFFD]),
        (utf8_runes ''NotifText'', JString (utf8_runes ''brew'')),
        (utf8_runes ''Phases'', JArray [JObject
           [(utf8_runes ''WorkDuration'', JNumber 60000000000),
            (utf8_runes ''BreakDuration'', JNumber 1000000000)]]),
        (utf8_runes ''MaxCycles'', JNumber (- 1))]])),
     create_refused = False, open_refused = False\<rparr>) \<and>
   loadTimerConfigs
    \<lparr>configFile = Some (Document (JArray [JObject
       [(utf8_runes ''Name'', JString [0xFFFD]),
        (utf8_runes ''NotifText'', JString (utf8_runes ''brew'')),
        (utf8_runes ''Phases'', JArray [JObject
           [(utf8_runes ''WorkDuration'', JNumber 60000000000),
            (utf8_runes ''BreakDuration'', JNumber 1000000000)]]),
        (utf8_runes ''MaxCycles'', JNumber (- 1))]])),
     create_refused = False, open_refused = False\<rparr> =
   Inr [\<lparr>Name = [char_of (0xEF :: nat), char_of (0xBF :: nat), char_of (0xBD :: nat)],
         NotifText = ''brew'',
         Phases = [\<lparr>WorkDuration = Minute, BreakDuration = Second\<rparr>], MaxCycles = - 1\<rparr>] \<and>
   [char_of (0xEF :: nat), char_of (0xBF :: nat), char_of (0xBD :: nat)] \<noteq> [char_of (0xFF :: nat)]"
proof -
  let ?c = "\<lparr>Name = [char_of (0xFF :: nat)], NotifText = ''brew'',
       Phases = [\<lparr>WorkDuration = Minute, BreakDuration = Second\<rparr>], MaxCycles = - 1\<rparr>"
  have e: "Encode [?c] = JArray [JObject
       [(utf8_runes ''Name'', JString [0xFFFD]),
        (utf8_runes ''NotifText'', JString (utf8_runes ''brew'')),
        (utf8_runes ''Phases'', JArray [JObject
           [(utf8_runes ''WorkDuration'', JNumber 60000000000),
            (utf8_runes ''BreakDuration'', JNumber 1000000000)]]),
        (utf8_runes ''MaxCycles'', JNumber (- 1))]]"
    by (simp add: Encode_def marshal_TimerConfig_def MarshalJSON_def Minute_def Second_def
        RuneError_def)
  have r: "reloaded ?c = ?c\<lparr>Name := [char_of (0xEF :: nat), char_of (0xBF :: nat), char_of (0xBD :: nat)]\<rparr>"
    using ToValidUTF8_id [of "''brew''"]
    by (simp add: reloaded_def ToValidUTF8_def [of "[char_of (0xFF :: nat)]"] utf8_bytes_def
        AppendRune_def RuneError_def)
  have d: "Decode (Encode [?c]) = Inr [reloaded ?c]"
    by (simp only: Decode_Encode list.map)
  have s: "saveTimerConfigs [?c] \<lparr>configFile = None, create_refused = False, open_refused = False\<rparr> =
     (None, \<lparr>configFile = Some (Document (Encode [?c])), create_refused = False,
              open_refused = False\<rparr>)"
    by (simp add: saveTimerConfigs_def)
  have l: "loadTimerConfigs \<lparr>configFile = Some (Document (Encode [?c])), create_refused = False,
              open_refused = False\<rparr> = Inr [reloaded ?c]"
    by (simp add: loadTimerConfigs_def d)
  show ?thesis
    using s l unfolding e r
    by (simp add: Minute_def Second_def)
qed

end
